theory Spec2Isabelle
  imports Main "HOL-Library.Word"
begin

section \<open>Data model\<close>

subsection \<open>Conversation turns (package message)\<close>

text \<open>
  Modelled from the spec: the declarations of package \<^verbatim>\<open>message\<close> are not part of the
  sources at hand; only their uses in \<^verbatim>\<open>convertMessages\<close> are. A conversation turn
  is a tagged union over system, user, assistant and tool; an assistant turn carries
  tool-call requests (name and serialized input), a tool turn carries tool-call results
  (call identifier and result content). \<open>Unrecognized\<close> stands for every role value
  other than the four named ones. The fields \<open>Content\<close>, \<open>ToolCalls\<close> and
  \<open>ToolResults\<close> of a turn are what \<^verbatim>\<open>msg.Content().String()\<close>,
  \<^verbatim>\<open>msg.ToolCalls()\<close> and \<^verbatim>\<open>msg.ToolResults()\<close> return.
\<close>

datatype MessageRole = Assistant | User | System | Tool | Unrecognized string

record ToolCall =
  Name :: string
  Input :: string

record ToolResult =
  ToolCallID :: string
  Content :: string

record Message =
  Role :: MessageRole
  Content :: string
  ToolCalls :: "ToolCall list"
  ToolResults :: "ToolResult list"

subsection \<open>Wire structures of the backend\<close>

record ollamaMessage =
  Role :: string
  Content :: string

record ollamaRequest =
  Model :: string
  Messages :: "ollamaMessage list"
  Stream :: bool
  Options :: "(string \<times> string) list"

record ollamaUsage =
  PromptTokens :: "64 word"
  CompletionTokens :: "64 word"
  TotalTokens :: "64 word"

record ollamaResponse =
  Model :: string
  CreatedAt :: string
  Message :: ollamaMessage
  Done :: bool
  Error :: string
  Usage :: ollamaUsage

subsection \<open>Errors\<close>

text \<open>
  A Go \<^verbatim>\<open>error\<close> value: \<open>EOF\<close> is \<^verbatim>\<open>io.EOF\<close>; \<open>New s\<close> is an error whose text
  is \<open>s\<close> (\<^verbatim>\<open>fmt.Errorf\<close> with \<^verbatim>\<open>%s\<close> only); \<open>Wrap p e\<close> is
  \<^verbatim>\<open>fmt.Errorf(p + "%w", e)\<close>, whose text is \<open>p\<close> followed by the text of \<open>e\<close>.
\<close>

datatype error = EOF | New string | Wrap string error

fun Error_text :: "error \<Rightarrow> string" where
  "Error_text EOF = ''EOF''"
| "Error_text (New s) = s"
| "Error_text (Wrap p e) = p @ Error_text e"

subsection \<open>Normalized responses and events (package provider)\<close>

text \<open>
  Modelled from the spec: \<^verbatim>\<open>ProviderResponse\<close>, \<^verbatim>\<open>TokenUsage\<close>, \<^verbatim>\<open>ProviderEvent\<close>
  and the event type constants are declared in a file that is not part of the sources
  at hand. A normalized response has content, usage (input and output token counters)
  and a finish reason; a normalized event is a content delta (text), a completion (the
  final response) or an error (the failure). Fields that a Go struct literal leaves out
  hold their zero value: the empty string, \<open>None\<close> for a nil pointer or nil error,
  zero counters, \<open>FinishReasonUnset\<close>.
\<close>

datatype FinishReason = FinishReasonUnset | FinishReasonEndTurn

record TokenUsage =
  InputTokens :: "64 word"
  OutputTokens :: "64 word"

record ProviderResponse =
  Content :: string
  Usage :: TokenUsage
  FinishReason :: FinishReason

datatype EventType = EventContentDelta | EventComplete | EventError

record ProviderEvent =
  Type :: EventType
  Content :: string
  Response :: "ProviderResponse option"
  Error :: "error option"

subsection \<open>HTTP exchange and the client\<close>

text \<open>
  A response body is the bytes the connection delivers followed by how the delivery
  ends: \<open>EOF\<close> for a clean end of stream, any other error for a transport failure
  after those bytes.
\<close>

record httpBody =
  pending :: string
  ending :: error

record httpResponse =
  StatusCode :: int
  Body :: httpBody

record httpRequest =
  Method :: string
  URL :: string
  ContentType :: string
  Payload :: string

text \<open>
  The library calls whose outcome the adapter branches on, as functions of their
  arguments: \<^verbatim>\<open>json.Marshal\<close>, \<^verbatim>\<open>json.Unmarshal\<close> into a fresh
  \<^verbatim>\<open>ollamaResponse\<close>, \<^verbatim>\<open>http.NewRequestWithContext\<close> and \<^verbatim>\<open>client.Do\<close>.
\<close>

record library =
  Marshal :: "ollamaRequest \<Rightarrow> error + string"
  Unmarshal :: "string \<Rightarrow> error + ollamaResponse"
  NewRequestWithContext :: "string \<Rightarrow> string \<Rightarrow> string \<Rightarrow> error + httpRequest"
  Do :: "httpRequest \<Rightarrow> error + httpResponse"

record providerClientOptions =
  systemMessage :: string

record ollamaOptions =
  baseURL :: string
  model :: string

record ollamaClient =
  providerOptions :: providerClientOptions
  options :: ollamaOptions

definition StatusOK :: int where
  "StatusOK = 200"

definition newline :: char where
  "newline = CHR 0x0A"

section \<open>Message translator\<close>

text \<open>The inner loop of the assistant case: the text that enumerates the tool calls.\<close>

definition toolCallsText :: "ToolCall list \<Rightarrow> string" where
  "toolCallsText calls =
     foldl (\<lambda>text call. text @ ''- Tool: '' @ Name call @ [newline] @
                          ''  Arguments: '' @ Input call @ [newline])
       (''I need to use the following tools:'' @ [newline]) calls"

text \<open>The body of the loop over the history: one \<^verbatim>\<open>switch msg.Role\<close>.\<close>

definition convertMessage :: "ollamaMessage list \<Rightarrow> Message \<Rightarrow> ollamaMessage list" where
  "convertMessage ollamaMessages msg =
     (case Message.Role msg of
        User \<Rightarrow>
          ollamaMessages @
            [\<lparr>ollamaMessage.Role = ''user'', ollamaMessage.Content = Message.Content msg\<rparr>]
      | Assistant \<Rightarrow>
          (let withText =
                 (if Message.Content msg \<noteq> ''''
                  then ollamaMessages @
                         [\<lparr>ollamaMessage.Role = ''assistant'',
                           ollamaMessage.Content = Message.Content msg\<rparr>]
                  else ollamaMessages)
           in if length (ToolCalls msg) > 0
              then withText @
                     [\<lparr>ollamaMessage.Role = ''assistant'',
                       ollamaMessage.Content = toolCallsText (ToolCalls msg)\<rparr>]
              else withText)
      | Tool \<Rightarrow>
          foldl (\<lambda>acc result. acc @
                   [\<lparr>ollamaMessage.Role = ''user'',
                     ollamaMessage.Content =
                       ''Tool result for '' @ ToolCallID result @ '': '' @
                       ToolResult.Content result\<rparr>])
            ollamaMessages (ToolResults msg)
      | _ \<Rightarrow> ollamaMessages)"

definition convertMessages :: "ollamaClient \<Rightarrow> Message list \<Rightarrow> ollamaMessage list" where
  "convertMessages c messages =
     foldl convertMessage
       (if systemMessage (providerOptions c) \<noteq> ''''
        then [] @ [\<lparr>ollamaMessage.Role = ''system'',
                    ollamaMessage.Content = systemMessage (providerOptions c)\<rparr>]
        else [])
       messages"

section \<open>Completion transport\<close>

text \<open>
  Both calls build the request in the same way and then differ in how they read the
  response. The call context is only handed on to the request constructor and the
  \<^verbatim>\<open>tools\<close> argument is not looked at, so neither is a parameter here; the debug log of
  the encoded request does not change what is returned and is left out.
\<close>

subsection \<open>Reading the body\<close>

text \<open>
  \<^verbatim>\<open>io.ReadAll\<close>: every byte delivered, and the failure that ended the delivery unless
  it was the end of the stream.
\<close>

definition ReadAll :: "httpBody \<Rightarrow> string \<times> error option" where
  "ReadAll b = (pending b, if ending b = EOF then None else Some (ending b))"

text \<open>
  \<^verbatim>\<open>bufio.Reader.ReadBytes\<close>: the bytes up to and including the first delimiter and no
  error; when the delivery ends before a delimiter, the bytes read so far together with
  the error that ended it.
\<close>

fun readUntil :: "char \<Rightarrow> string \<Rightarrow> (string \<times> string) option" where
  "readUntil delim [] = None"
| "readUntil delim (b # bs) =
     (if b = delim then Some ([b], bs)
      else (case readUntil delim bs of
              None \<Rightarrow> None
            | Some (line, rest) \<Rightarrow> Some (b # line, rest)))"

definition ReadBytes :: "char \<Rightarrow> httpBody \<Rightarrow> string \<times> error option \<times> httpBody" where
  "ReadBytes delim reader =
     (case readUntil delim (pending reader) of
        Some (line, rest) \<Rightarrow> (line, None, reader\<lparr>pending := rest\<rparr>)
      | None \<Rightarrow> (pending reader, Some (ending reader), reader\<lparr>pending := []\<rparr>))"

subsection \<open>Synchronous mode\<close>

definition send :: "library \<Rightarrow> ollamaClient \<Rightarrow> Message list \<Rightarrow> error + ProviderResponse" where
  "send lib c messages =
     (let ollamaMessages = convertMessages c messages;
          reqBody = \<lparr>ollamaRequest.Model = model (options c), Messages = ollamaMessages,
                     Stream = False, Options = []\<rparr>
      in case Marshal lib reqBody of
           Inl err \<Rightarrow> Inl (Wrap ''failed to marshal request: '' err)
         | Inr jsonData \<Rightarrow>
      (case NewRequestWithContext lib ''POST'' (baseURL (options c) @ ''/api/chat'') jsonData of
           Inl err \<Rightarrow> Inl (Wrap ''failed to create request: '' err)
         | Inr req \<Rightarrow>
      (case Do lib (req\<lparr>ContentType := ''application/json''\<rparr>) of
           Inl err \<Rightarrow> Inl (Wrap ''failed to send request: '' err)
         | Inr resp \<Rightarrow>
      (case ReadAll (Body resp) of
           (body, Some err) \<Rightarrow> Inl (Wrap ''failed to read response: '' err)
         | (body, None) \<Rightarrow>
      if StatusCode resp \<noteq> StatusOK then Inl (New (''ollama API error: '' @ body))
      else
      (case Unmarshal lib body of
           Inl err \<Rightarrow> Inl (Wrap ''failed to unmarshal response: '' err)
         | Inr ollamaResp \<Rightarrow>
      if ollamaResponse.Error ollamaResp \<noteq> ''''
      then Inl (New (''ollama API error: '' @ ollamaResponse.Error ollamaResp))
      else Inr \<lparr>ProviderResponse.Content = ollamaMessage.Content (Message ollamaResp),
                Usage = \<lparr>InputTokens = PromptTokens (ollamaResponse.Usage ollamaResp),
                          OutputTokens = CompletionTokens (ollamaResponse.Usage ollamaResp)\<rparr>,
                FinishReason = FinishReasonEndTurn\<rparr>)))))"

subsection \<open>Streaming mode\<close>

text \<open>
  The channel is unbuffered and has one producer, so what the consumer observes before
  the channel closes is the list of events in the order they were sent. Every function
  below returns that list.
\<close>

text \<open>
  The read loop of the background task, from the state \<open>(reader, fullContent)\<close>: the
  events sent from here on.
\<close>

function readLoop ::
  "(string \<Rightarrow> error + ollamaResponse) \<Rightarrow> httpBody \<Rightarrow> string \<Rightarrow> ProviderEvent list" where
  "readLoop unmarshal reader fullContent =
     (case ReadBytes newline reader of
        (line, Some err, reader') \<Rightarrow>
          if err = EOF
          then [\<lparr>Type = EventComplete, Content = '''',
                 Response = Some \<lparr>ProviderResponse.Content = fullContent,
                                  Usage = \<lparr>InputTokens = 0, OutputTokens = 0\<rparr>,
                                  FinishReason = FinishReasonEndTurn\<rparr>,
                 Error = None\<rparr>]
          else [\<lparr>Type = EventError, Content = '''', Response = None,
                 Error = Some (Wrap ''error reading stream: '' err)\<rparr>]
      | (line, None, reader') \<Rightarrow>
          if length line = 0 then readLoop unmarshal reader' fullContent
          else
          (case unmarshal line of
             Inl err \<Rightarrow>
               [\<lparr>Type = EventError, Content = '''', Response = None,
                 Error = Some (Wrap ''failed to unmarshal response: '' err)\<rparr>]
           | Inr ollamaResp \<Rightarrow>
               if ollamaResponse.Error ollamaResp \<noteq> ''''
               then [\<lparr>Type = EventError, Content = '''', Response = None,
                      Error = Some (New (''ollama API error: '' @
                                         ollamaResponse.Error ollamaResp))\<rparr>]
               else
               (let delta =
                      (if ollamaMessage.Content (Message ollamaResp) \<noteq> ''''
                       then [\<lparr>Type = EventContentDelta,
                              Content = ollamaMessage.Content (Message ollamaResp),
                              Response = None, Error = None\<rparr>]
                       else []);
                    fullContent' =
                      (if ollamaMessage.Content (Message ollamaResp) \<noteq> ''''
                       then fullContent @ ollamaMessage.Content (Message ollamaResp)
                       else fullContent)
                in if Done ollamaResp
                   then delta @
                        [\<lparr>Type = EventComplete, Content = '''',
                          Response = Some
                            \<lparr>ProviderResponse.Content = fullContent',
                             Usage = \<lparr>InputTokens =
                                        PromptTokens (ollamaResponse.Usage ollamaResp),
                                      OutputTokens =
                                        CompletionTokens (ollamaResponse.Usage ollamaResp)\<rparr>,
                             FinishReason = FinishReasonEndTurn\<rparr>,
                          Error = None\<rparr>]
                   else delta @ readLoop unmarshal reader' fullContent')))"
  by pat_completeness auto
termination
proof -
  have shorter: "length rest < length bs"
    if "readUntil delim bs = Some (line, rest)" for delim bs line rest
    using that by (induction bs arbitrary: line rest) (auto split: if_splits option.splits)
  have consumed: "length (pending reader') < length (pending reader)"
    if "(line, None, reader') = ReadBytes delim reader" for delim reader line reader'
    using that [symmetric] by (auto simp: ReadBytes_def split: option.splits dest: shorter)
  show ?thesis
    by (relation "measure (\<lambda>(unmarshal, reader, fullContent). length (pending reader))")
       (auto dest: consumed)
qed

declare readLoop.simps [simp del]

text \<open>The background task: what it sends once the request has been built.\<close>

definition streamTask :: "library \<Rightarrow> httpRequest \<Rightarrow> ProviderEvent list" where
  "streamTask lib req =
     (case Do lib req of
        Inl err \<Rightarrow>
          [\<lparr>Type = EventError, Content = '''', Response = None,
            Error = Some (Wrap ''failed to send request: '' err)\<rparr>]
      | Inr resp \<Rightarrow>
          if StatusCode resp \<noteq> StatusOK
          then (case ReadAll (Body resp) of
                  (body, _) \<Rightarrow>
                    [\<lparr>Type = EventError, Content = '''', Response = None,
                      Error = Some (New (''ollama API error: '' @ body))\<rparr>])
          else readLoop (Unmarshal lib) (Body resp) '''')"

definition stream :: "library \<Rightarrow> ollamaClient \<Rightarrow> Message list \<Rightarrow> ProviderEvent list" where
  "stream lib c messages =
     (let ollamaMessages = convertMessages c messages;
          reqBody = \<lparr>ollamaRequest.Model = model (options c), Messages = ollamaMessages,
                     Stream = True, Options = []\<rparr>
      in case Marshal lib reqBody of
           Inl err \<Rightarrow>
             [\<lparr>Type = EventError, Content = '''', Response = None,
               Error = Some (Wrap ''failed to marshal request: '' err)\<rparr>]
         | Inr jsonData \<Rightarrow>
      (case NewRequestWithContext lib ''POST'' (baseURL (options c) @ ''/api/chat'') jsonData of
           Inl err \<Rightarrow>
             [\<lparr>Type = EventError, Content = '''', Response = None,
               Error = Some (Wrap ''failed to create request: '' err)\<rparr>]
         | Inr req \<Rightarrow> streamTask lib (req\<lparr>ContentType := ''application/json''\<rparr>)))"

section \<open>Vocabulary of the properties\<close>

text \<open>
  The backend answers the call with \<open>resp\<close>: the request is encoded, created and
  dispatched without failure, and \<open>resp\<close> is what \<^verbatim>\<open>client.Do\<close> returns for it.
  \<open>streaming\<close> is the streaming flag of the request, false in \<open>send\<close> and true in
  \<open>stream\<close>.
\<close>

definition answered :: "library \<Rightarrow> ollamaClient \<Rightarrow> bool \<Rightarrow> Message list \<Rightarrow> httpResponse \<Rightarrow> bool" where
  "answered lib c streaming messages resp =
     (case Marshal lib \<lparr>ollamaRequest.Model = model (options c),
                        Messages = convertMessages c messages,
                        Stream = streaming, Options = []\<rparr> of
        Inl err \<Rightarrow> False
      | Inr jsonData \<Rightarrow>
          (case NewRequestWithContext lib ''POST'' (baseURL (options c) @ ''/api/chat'')
                  jsonData of
             Inl err \<Rightarrow> False
           | Inr req \<Rightarrow> Do lib (req\<lparr>ContentType := ''application/json''\<rparr>) = Inr resp))"

text \<open>Newline-delimited records: every record followed by one newline.\<close>

definition records :: "string list \<Rightarrow> string" where
  "records ls = concat (map (\<lambda>l. l @ [newline]) ls)"

text \<open>
  The records \<open>ls\<close> carry the fragments \<open>frs\<close>: record by record, the text holds no
  newline of its own and the decoder turns the record, read with its newline, into the
  fragment.
\<close>

definition carries ::
  "(string \<Rightarrow> error + ollamaResponse) \<Rightarrow> string list \<Rightarrow> ollamaResponse list \<Rightarrow> bool" where
  "carries unmarshal ls frs =
     list_all2 (\<lambda>l f. newline \<notin> set l \<and> unmarshal (l @ [newline]) = Inr f) ls frs"

text \<open>The three kinds of the normalized event, as the code builds them.\<close>

definition contentDelta :: "string \<Rightarrow> ProviderEvent" where
  "contentDelta text =
     \<lparr>Type = EventContentDelta, Content = text, Response = None, Error = None\<rparr>"

definition complete :: "string \<Rightarrow> TokenUsage \<Rightarrow> ProviderEvent" where
  "complete text usage =
     \<lparr>Type = EventComplete, Content = [],
      Response = Some \<lparr>ProviderResponse.Content = text, Usage = usage,
                       FinishReason = FinishReasonEndTurn\<rparr>,
      Error = None\<rparr>"

definition failed :: "error \<Rightarrow> ProviderEvent" where
  "failed err = \<lparr>Type = EventError, Content = [], Response = None, Error = Some err\<rparr>"

text \<open>The increments of a fragment sequence: the non-empty message contents, in order.\<close>

definition increments :: "ollamaResponse list \<Rightarrow> string list" where
  "increments frs = filter (\<lambda>s. s \<noteq> []) (map (\<lambda>f. ollamaMessage.Content (Message f)) frs)"

subsection \<open>A scripted backend for concrete runs\<close>

text \<open>
  A fragment given by its content, done flag, error string and token counters; a decoder
  given by a script of records and the fragments they stand for (a record is decoded
  together with its newline, every other input is rejected); a library whose encoder and
  request constructor succeed and whose exchange returns a fixed status and body.
\<close>

definition fragment :: "string \<Rightarrow> bool \<Rightarrow> string \<Rightarrow> 64 word \<Rightarrow> 64 word \<Rightarrow> ollamaResponse" where
  "fragment text done err promptTokens completionTokens =
     \<lparr>ollamaResponse.Model = ''llama3'', CreatedAt = [],
      Message = \<lparr>ollamaMessage.Role = ''assistant'', ollamaMessage.Content = text\<rparr>,
      Done = done, ollamaResponse.Error = err,
      ollamaResponse.Usage = \<lparr>PromptTokens = promptTokens,
                               CompletionTokens = completionTokens,
                               TotalTokens = promptTokens + completionTokens\<rparr>\<rparr>"

definition tableDecoder :: "(string \<times> ollamaResponse) list \<Rightarrow> string \<Rightarrow> error + ollamaResponse" where
  "tableDecoder script line =
     (case map_of (map (\<lambda>(l, f). (l @ [newline], f)) script) line of
        Some f \<Rightarrow> Inr f
      | None \<Rightarrow> Inl (New ''unexpected end of JSON input''))"

definition scripted :: "(string \<times> ollamaResponse) list \<Rightarrow> int \<Rightarrow> string \<Rightarrow> error \<Rightarrow> library" where
  "scripted script status body fin =
     \<lparr>Marshal = (\<lambda>reqBody. Inr ''{}''),
      Unmarshal = tableDecoder script,
      NewRequestWithContext =
        (\<lambda>method url payload.
           Inr \<lparr>Method = method, URL = url, ContentType = [], Payload = payload\<rparr>),
      Do = (\<lambda>req. Inr \<lparr>StatusCode = status, Body = \<lparr>pending = body, ending = fin\<rparr>\<rparr>)\<rparr>"

text \<open>The stream of three records that counts to two and then reports completion.\<close>

definition counting :: "(string \<times> ollamaResponse) list" where
  "counting =
     [(''one'', fragment ''1'' False [] 0 0),
      (''two'', fragment ''2'' False [] 0 0),
      (''end'', fragment [] True [] 2 2)]"

definition localClient :: "string \<Rightarrow> ollamaClient" where
  "localClient sys =
     \<lparr>providerOptions = \<lparr>systemMessage = sys\<rparr>,
      options = \<lparr>baseURL = ''http://localhost:11434'', model = ''llama3''\<rparr>\<rparr>"

section \<open>Properties of the message translator\<close>

lemma foldl_append_concat:
  "foldl (\<lambda>acc x. acc @ g x) a xs = a @ concat (map g xs)"
  by (induction xs arbitrary: a) simp_all

lemma toolCallsText_concat:
  "toolCallsText calls =
     ''I need to use the following tools:'' @ [newline] @
     concat (map (\<lambda>call. ''- Tool: '' @ Name call @ [newline] @
                          ''  Arguments: '' @ Input call @ [newline]) calls)"
  unfolding toolCallsText_def by (simp only: foldl_append_concat append_assoc)

lemma convertMessage_append:
  "convertMessage acc msg = acc @ convertMessage [] msg"
  unfolding convertMessage_def
  by (cases "Message.Role msg") (simp_all add: Let_def foldl_append_concat)

lemma foldl_convertMessage:
  "foldl convertMessage acc msgs = acc @ concat (map (convertMessage []) msgs)"
proof (induction msgs arbitrary: acc)
  case Nil
  show ?case by simp
next
  case (Cons m ms)
  have "foldl convertMessage acc (m # ms) = foldl convertMessage (convertMessage acc m) ms"
    by simp
  also have "\<dots> = convertMessage acc m @ concat (map (convertMessage []) ms)"
    by (rule Cons.IH)
  also have "\<dots> = acc @ convertMessage [] m @ concat (map (convertMessage []) ms)"
    by (subst convertMessage_append) simp
  finally show ?case by simp
qed

lemma convertMessages_concat:
  "convertMessages c msgs =
     (if systemMessage (providerOptions c) \<noteq> ''''
      then [\<lparr>ollamaMessage.Role = ''system'',
             ollamaMessage.Content = systemMessage (providerOptions c)\<rparr>]
      else []) @ concat (map (convertMessage []) msgs)"
  unfolding convertMessages_def by (subst foldl_convertMessage) simp

lemma convertMessage_no_system:
  "t \<in> set (convertMessage [] msg) \<Longrightarrow> ollamaMessage.Role t \<noteq> ''system''"
  unfolding convertMessage_def
  by (cases "Message.Role msg") (auto simp: Let_def foldl_append_concat split: if_splits)

lemma convertMessage_unrecognized:
  "Message.Role msg \<notin> {User, Assistant, Tool} \<Longrightarrow> convertMessage acc msg = acc"
  unfolding convertMessage_def by (cases "Message.Role msg") simp_all

section \<open>Properties of the read loop\<close>

lemma readUntil_record:
  "delim \<notin> set l \<Longrightarrow> readUntil delim (l @ delim # rest) = Some (l @ [delim], rest)"
  by (induction l) auto

lemma readUntil_unterminated:
  "delim \<notin> set l \<Longrightarrow> readUntil delim l = None"
  by (induction l) auto

lemma readUntil_nonempty:
  "readUntil delim bs = Some (line, rest) \<Longrightarrow> line \<noteq> []"
  by (induction bs arbitrary: line rest) (auto split: if_splits option.splits)

lemma ReadBytes_record:
  "newline \<notin> set l \<Longrightarrow> pending reader = l @ newline # rest \<Longrightarrow>
     ReadBytes newline reader = (l @ [newline], None, reader\<lparr>pending := rest\<rparr>)"
  by (simp add: ReadBytes_def readUntil_record)

lemma ReadBytes_unterminated:
  "newline \<notin> set (pending reader) \<Longrightarrow>
     ReadBytes newline reader = (pending reader, Some (ending reader), reader\<lparr>pending := []\<rparr>)"
  by (simp add: ReadBytes_def readUntil_unterminated)

lemma ReadBytes_nonempty:
  "ReadBytes delim reader = (line, None, reader') \<Longrightarrow> line \<noteq> []"
  by (auto simp: ReadBytes_def split: option.splits dest: readUntil_nonempty)

text \<open>One turn of the loop, by what the read returns.\<close>

lemma readLoop_end:
  "newline \<notin> set (pending reader) \<Longrightarrow>
     readLoop unmarshal reader fullContent =
       (if ending reader = EOF
        then [complete fullContent \<lparr>InputTokens = 0, OutputTokens = 0\<rparr>]
        else [failed (Wrap ''error reading stream: '' (ending reader))])"
  by (subst readLoop.simps) (simp add: ReadBytes_unterminated complete_def failed_def)

lemma readLoop_undecodable:
  "newline \<notin> set l \<Longrightarrow> pending reader = l @ newline # rest \<Longrightarrow>
   unmarshal (l @ [newline]) = Inl err \<Longrightarrow>
     readLoop unmarshal reader fullContent =
       [failed (Wrap ''failed to unmarshal response: '' err)]"
  by (subst readLoop.simps) (simp add: ReadBytes_record failed_def)

lemma readLoop_fragment:
  "newline \<notin> set l \<Longrightarrow> pending reader = l @ newline # rest \<Longrightarrow>
   unmarshal (l @ [newline]) = Inr f \<Longrightarrow>
     readLoop unmarshal reader fullContent =
       (if ollamaResponse.Error f \<noteq> ''''
        then [failed (New (''ollama API error: '' @ ollamaResponse.Error f))]
        else map contentDelta (increments [f]) @
             (if Done f
              then [complete (fullContent @ ollamaMessage.Content (Message f))
                      \<lparr>InputTokens = PromptTokens (ollamaResponse.Usage f),
                       OutputTokens = CompletionTokens (ollamaResponse.Usage f)\<rparr>]
              else readLoop unmarshal (reader\<lparr>pending := rest\<rparr>)
                     (fullContent @ ollamaMessage.Content (Message f))))"
  by (subst readLoop.simps)
     (simp add: ReadBytes_record failed_def complete_def contentDelta_def increments_def Let_def)


lemma Type_simps:
  "Type (contentDelta s) = EventContentDelta"
  "Type (complete t u) = EventComplete"
  "Type (failed err) = EventError"
  by (simp_all add: contentDelta_def complete_def failed_def)

lemma increments_Cons:
  "increments (f # frs) = increments [f] @ increments frs"
  by (simp add: increments_def)

lemma increments_append:
  "increments (frs @ frs') = increments frs @ increments frs'"
  by (simp add: increments_def)

lemma concat_increments_single:
  "concat (increments [f]) = ollamaMessage.Content (Message f)"
  by (simp add: increments_def)

lemma concat_increments:
  "concat (increments frs) = concat (map (\<lambda>f. ollamaMessage.Content (Message f)) frs)"
  by (induction frs) (simp_all add: increments_def)

lemma increments_nonempty: "s \<in> set (increments frs) \<Longrightarrow> s \<noteq> []"
  by (simp add: increments_def)

text \<open>Every run of the loop: deltas, then one completion or one failure.\<close>

lemma readLoop_trace:
  "\<exists>ss e. readLoop unmarshal reader fullContent = map contentDelta ss @ [e] \<and>
          (\<forall>s \<in> set ss. s \<noteq> []) \<and>
          ((\<exists>usage. e = complete (fullContent @ concat ss) usage) \<or> (\<exists>err. e = failed err))"
proof (induction "length (pending reader)" arbitrary: reader fullContent rule: less_induct)
  case less
  show ?case
  proof (cases "newline \<in> set (pending reader)")
    case False
    then have "readLoop unmarshal reader fullContent =
       (if ending reader = EOF
        then [complete fullContent \<lparr>InputTokens = 0, OutputTokens = 0\<rparr>]
        else [failed (Wrap ''error reading stream: '' (ending reader))])"
      by (rule readLoop_end)
    then show ?thesis
      by (intro exI [of _ "[]"]
            exI [of _ "if ending reader = EOF
                       then complete fullContent \<lparr>InputTokens = 0, OutputTokens = 0\<rparr>
                       else failed (Wrap ''error reading stream: '' (ending reader))"])
         auto
  next
    case True
    then obtain l rest where split: "pending reader = l @ newline # rest" "newline \<notin> set l"
      by (meson split_list_first)
    show ?thesis
    proof (cases "unmarshal (l @ [newline])")
      case (Inl err)
      with split have "readLoop unmarshal reader fullContent =
          map contentDelta [] @ [failed (Wrap ''failed to unmarshal response: '' err)]"
        by (simp add: readLoop_undecodable)
      then show ?thesis
        by (intro exI [of _ "[]"] exI [of _ "failed (Wrap ''failed to unmarshal response: '' err)"])
           auto
    next
      case (Inr f)
      note step = readLoop_fragment [of l reader rest unmarshal f fullContent, OF split(2) split(1) Inr]
      show ?thesis
      proof (cases "ollamaResponse.Error f \<noteq> ''''")
        case True
        with step have "readLoop unmarshal reader fullContent =
            map contentDelta [] @ [failed (New (''ollama API error: '' @ ollamaResponse.Error f))]"
          by simp
        then show ?thesis
          by (intro exI [of _ "[]"]
                exI [of _ "failed (New (''ollama API error: '' @ ollamaResponse.Error f))"])
             auto
      next
        case noerr: False
        show ?thesis
        proof (cases "Done f")
          case True
          with step noerr have "readLoop unmarshal reader fullContent =
              map contentDelta (increments [f]) @
              [complete (fullContent @ concat (increments [f]))
                 \<lparr>InputTokens = PromptTokens (ollamaResponse.Usage f),
                  OutputTokens = CompletionTokens (ollamaResponse.Usage f)\<rparr>]"
            by (simp add: concat_increments_single)
          then show ?thesis
            by (intro exI [of _ "increments [f]"]
                  exI [of _ "complete (fullContent @ concat (increments [f]))
                     \<lparr>InputTokens = PromptTokens (ollamaResponse.Usage f),
                      OutputTokens = CompletionTokens (ollamaResponse.Usage f)\<rparr>"])
               (auto dest: increments_nonempty)
        next
          case False
          have "length (pending (reader\<lparr>pending := rest\<rparr>)) < length (pending reader)"
            using split by simp
          from less [OF this, of "fullContent @ ollamaMessage.Content (Message f)"]
          obtain ss e where rec:
            "readLoop unmarshal (reader\<lparr>pending := rest\<rparr>)
               (fullContent @ ollamaMessage.Content (Message f)) = map contentDelta ss @ [e]"
            "\<forall>s \<in> set ss. s \<noteq> []"
            "(\<exists>usage. e = complete ((fullContent @ ollamaMessage.Content (Message f)) @ concat ss) usage)
               \<or> (\<exists>err. e = failed err)"
            by blast
          from step noerr False rec(1)
          have "readLoop unmarshal reader fullContent =
                  map contentDelta (increments [f] @ ss) @ [e]"
            by simp
          moreover have "\<forall>s \<in> set (increments [f] @ ss). s \<noteq> []"
            using rec(2) increments_nonempty by auto
          moreover have "(\<exists>usage. e = complete (fullContent @ concat (increments [f] @ ss)) usage)
               \<or> (\<exists>err. e = failed err)"
            using rec(3) by (simp add: concat_increments_single)
          ultimately show ?thesis
            by (intro exI [of _ "increments [f] @ ss"] exI [of _ e]) simp
        qed
      qed
    qed
  qed
qed

text \<open>A run over records that carry fragments without done flag and without error.\<close>

lemma records_Cons: "records (l # ls) @ rest = l @ newline # records ls @ rest"
  by (simp add: records_def)

lemma readLoop_carries:
  "carries unmarshal ls frs \<Longrightarrow>
   \<forall>f \<in> set frs. \<not> Done f \<and> ollamaResponse.Error f = '''' \<Longrightarrow>
   pending reader = records ls @ rest \<Longrightarrow>
     readLoop unmarshal reader fullContent =
       map contentDelta (increments frs) @
       readLoop unmarshal (reader\<lparr>pending := rest\<rparr>) (fullContent @ concat (increments frs))"
  unfolding carries_def
proof (induction ls frs arbitrary: reader fullContent rule: list_all2_induct)
  case Nil
  then have "reader\<lparr>pending := rest\<rparr> = reader" by (simp add: records_def)
  then show ?case by (simp add: increments_def)
next
  case (Cons l ls f frs)
  have p: "pending reader = l @ newline # (records ls @ rest)"
    using Cons.prems(2) by (simp add: records_Cons)
  have step: "readLoop unmarshal reader fullContent =
      map contentDelta (increments [f]) @
      readLoop unmarshal (reader\<lparr>pending := records ls @ rest\<rparr>)
        (fullContent @ ollamaMessage.Content (Message f))"
    using readLoop_fragment [of l reader "records ls @ rest" unmarshal f fullContent]
      Cons.hyps(1) Cons.prems(1) p by simp
  have "readLoop unmarshal (reader\<lparr>pending := records ls @ rest\<rparr>)
          (fullContent @ ollamaMessage.Content (Message f)) =
        map contentDelta (increments frs) @
        readLoop unmarshal (reader\<lparr>pending := records ls @ rest, pending := rest\<rparr>)
          ((fullContent @ ollamaMessage.Content (Message f)) @ concat (increments frs))"
    using Cons.prems(1) by (intro Cons.IH) simp_all
  with step show ?case
    by (simp add: increments_Cons [of f frs] concat_increments_single)
qed

lemma carries_Nil [simp]: "carries unmarshal [] []"
  by (simp add: carries_def)

lemma carries_Cons:
  "carries unmarshal (l # ls) (f # frs) \<longleftrightarrow>
     newline \<notin> set l \<and> unmarshal (l @ [newline]) = Inr f \<and> carries unmarshal ls frs"
  by (simp add: carries_def)

text \<open>
  A run over records that carry fragments, up to the end of the delivery: the deltas
  are the increments of a prefix of the fragments, and the last event is a failure, the
  completion of a fragment with done flag, or the completion made up at the end.
\<close>

lemma readLoop_prefix:
  "carries unmarshal ls frs \<Longrightarrow> pending reader = records ls @ rest \<Longrightarrow>
   newline \<notin> set rest \<Longrightarrow>
     \<exists>k e. k \<le> length frs \<and>
       readLoop unmarshal reader fullContent = map contentDelta (increments (take k frs)) @ [e] \<and>
       ((\<exists>err. e = failed err) \<or>
        (\<exists>d \<in> set frs. Done d \<and>
           e = complete (fullContent @ concat (increments (take k frs)))
                 \<lparr>InputTokens = PromptTokens (ollamaResponse.Usage d),
                  OutputTokens = CompletionTokens (ollamaResponse.Usage d)\<rparr>) \<or>
        ((\<forall>f \<in> set frs. \<not> Done f) \<and>
           e = complete (fullContent @ concat (increments (take k frs)))
                 \<lparr>InputTokens = 0, OutputTokens = 0\<rparr>))"
  unfolding carries_def
proof (induction ls frs arbitrary: reader fullContent rule: list_all2_induct)
  case Nil
  then have "newline \<notin> set (pending reader)" by (simp add: records_def)
  then have run: "readLoop unmarshal reader fullContent =
       (if ending reader = EOF
        then [complete fullContent \<lparr>InputTokens = 0, OutputTokens = 0\<rparr>]
        else [failed (Wrap ''error reading stream: '' (ending reader))])"
    by (rule readLoop_end)
  show ?case
    by (rule exI [of _ 0],
        rule exI [of _ "if ending reader = EOF
                       then complete fullContent \<lparr>InputTokens = 0, OutputTokens = 0\<rparr>
                       else failed (Wrap ''error reading stream: '' (ending reader))"])
       (auto simp: run increments_def)
next
  case (Cons l ls f frs)
  have p: "pending reader = l @ newline # (records ls @ rest)"
    using Cons.prems(1) by (simp add: records_Cons)
  note step = readLoop_fragment [of l reader "records ls @ rest" unmarshal f fullContent]
  show ?case
  proof (cases "ollamaResponse.Error f \<noteq> ''''")
    case True
    then have run: "readLoop unmarshal reader fullContent =
        [failed (New (''ollama API error: '' @ ollamaResponse.Error f))]"
      using step Cons.hyps(1) p by simp
    show ?thesis
      by (rule exI [of _ 0],
          rule exI [of _ "failed (New (''ollama API error: '' @ ollamaResponse.Error f))"])
         (auto simp: run increments_def)
  next
    case noerr: False
    show ?thesis
    proof (cases "Done f")
      case True
      then have run: "readLoop unmarshal reader fullContent =
          map contentDelta (increments [f]) @
          [complete (fullContent @ concat (increments [f]))
             \<lparr>InputTokens = PromptTokens (ollamaResponse.Usage f),
              OutputTokens = CompletionTokens (ollamaResponse.Usage f)\<rparr>]"
        using step Cons.hyps(1) p noerr by (simp add: concat_increments_single)
      show ?thesis
        by (rule exI [of _ "Suc 0"],
            rule exI [of _ "complete (fullContent @ concat (increments [f]))
               \<lparr>InputTokens = PromptTokens (ollamaResponse.Usage f),
                OutputTokens = CompletionTokens (ollamaResponse.Usage f)\<rparr>"])
           (use True in \<open>auto simp: run\<close>)
    next
      case False
      have run: "readLoop unmarshal reader fullContent =
          map contentDelta (increments [f]) @
          readLoop unmarshal (reader\<lparr>pending := records ls @ rest\<rparr>)
            (fullContent @ ollamaMessage.Content (Message f))"
        using step Cons.hyps(1) p noerr False by simp
      have "pending (reader\<lparr>pending := records ls @ rest\<rparr>) = records ls @ rest"
        by simp
      from Cons.IH [OF this Cons.prems(2), of "fullContent @ ollamaMessage.Content (Message f)"]
      obtain k e where rec: "k \<le> length frs"
        "readLoop unmarshal (reader\<lparr>pending := records ls @ rest\<rparr>)
           (fullContent @ ollamaMessage.Content (Message f)) =
         map contentDelta (increments (take k frs)) @ [e]"
        "(\<exists>err. e = failed err) \<or>
         (\<exists>d \<in> set frs. Done d \<and>
           e = complete ((fullContent @ ollamaMessage.Content (Message f)) @
                         concat (increments (take k frs)))
                 \<lparr>InputTokens = PromptTokens (ollamaResponse.Usage d),
                  OutputTokens = CompletionTokens (ollamaResponse.Usage d)\<rparr>) \<or>
         ((\<forall>f \<in> set frs. \<not> Done f) \<and>
           e = complete ((fullContent @ ollamaMessage.Content (Message f)) @
                         concat (increments (take k frs)))
                 \<lparr>InputTokens = 0, OutputTokens = 0\<rparr>)"
        by blast
      have inc: "increments (f # take k frs) = increments [f] @ increments (take k frs)"
        by (rule increments_Cons)
      show ?thesis
        by (rule exI [of _ "Suc k"], rule exI [of _ e])
           (use rec False in \<open>auto simp: run inc concat_increments_single\<close>)
    qed
  qed
qed

text \<open>The first fragment with done flag ends the run with its completion.\<close>

lemma readLoop_first_done:
  assumes "carries unmarshal ls pre"
    and "\<forall>f \<in> set pre. \<not> Done f \<and> ollamaResponse.Error f = ''''"
    and "newline \<notin> set l" and "unmarshal (l @ [newline]) = Inr d"
    and "Done d" and "ollamaResponse.Error d = ''''"
    and "pending reader = records ls @ l @ newline # rest"
  shows "readLoop unmarshal reader fullContent =
           map contentDelta (increments (pre @ [d])) @
           [complete (fullContent @ concat (increments (pre @ [d])))
              \<lparr>InputTokens = PromptTokens (ollamaResponse.Usage d),
               OutputTokens = CompletionTokens (ollamaResponse.Usage d)\<rparr>]"
proof -
  have "readLoop unmarshal reader fullContent =
          map contentDelta (increments pre) @
          readLoop unmarshal (reader\<lparr>pending := l @ newline # rest\<rparr>)
            (fullContent @ concat (increments pre))"
    using assms(1,2,7) by (rule readLoop_carries)
  moreover have "readLoop unmarshal (reader\<lparr>pending := l @ newline # rest\<rparr>)
            (fullContent @ concat (increments pre)) =
          map contentDelta (increments [d]) @
          [complete ((fullContent @ concat (increments pre)) @ ollamaMessage.Content (Message d))
             \<lparr>InputTokens = PromptTokens (ollamaResponse.Usage d),
              OutputTokens = CompletionTokens (ollamaResponse.Usage d)\<rparr>]"
    using readLoop_fragment [of l "reader\<lparr>pending := l @ newline # rest\<rparr>" rest unmarshal d
        "fullContent @ concat (increments pre)"] assms(3-6)
    by simp
  ultimately show ?thesis
    by (simp add: increments_append concat_increments_single)
qed

text \<open>The whole call, once the backend has answered.\<close>

lemma stream_answered:
  "answered lib c True messages resp \<Longrightarrow>
     stream lib c messages =
       (if StatusCode resp \<noteq> StatusOK
        then [failed (New (''ollama API error: '' @ pending (Body resp)))]
        else readLoop (Unmarshal lib) (Body resp) '''')"
  by (auto simp: answered_def stream_def streamTask_def ReadAll_def failed_def Let_def
           split: sum.splits)

lemma send_answered:
  "answered lib c False messages resp \<Longrightarrow>
     send lib c messages =
       (if ending (Body resp) \<noteq> EOF
        then Inl (Wrap ''failed to read response: '' (ending (Body resp)))
        else if StatusCode resp \<noteq> StatusOK
        then Inl (New (''ollama API error: '' @ pending (Body resp)))
        else (case Unmarshal lib (pending (Body resp)) of
                Inl err \<Rightarrow> Inl (Wrap ''failed to unmarshal response: '' err)
              | Inr f \<Rightarrow>
                  if ollamaResponse.Error f \<noteq> ''''
                  then Inl (New (''ollama API error: '' @ ollamaResponse.Error f))
                  else Inr \<lparr>ProviderResponse.Content = ollamaMessage.Content (Message f),
                            Usage = \<lparr>InputTokens = PromptTokens (ollamaResponse.Usage f),
                                      OutputTokens = CompletionTokens (ollamaResponse.Usage f)\<rparr>,
                            FinishReason = FinishReasonEndTurn\<rparr>))"
  by (auto simp: answered_def send_def ReadAll_def Let_def split: sum.splits)

lemma stream_trace:
  "\<exists>ss e. stream lib c messages = map contentDelta ss @ [e] \<and>
          ((\<exists>usage. e = complete (concat ss) usage) \<or> (\<exists>err. e = failed err))"
proof -
  have single: "\<exists>ss e. [failed err] = map contentDelta ss @ [e] \<and>
          ((\<exists>usage. e = complete (concat ss) usage) \<or> (\<exists>err. e = failed err))" for err
    by (intro exI [of _ "[]"] exI [of _ "failed err"]) auto
  have loop: "\<exists>ss e. readLoop unmarshal reader '''' = map contentDelta ss @ [e] \<and>
          ((\<exists>usage. e = complete (concat ss) usage) \<or> (\<exists>err. e = failed err))"
    for unmarshal reader
    using readLoop_trace [of unmarshal reader "''''"] by auto
  show ?thesis
    unfolding stream_def streamTask_def Let_def ReadAll_def
    by (auto simp: failed_def [symmetric] single loop split: sum.splits simp del: append_Nil)
qed

lemma carries_split:
  "carries unmarshal ls (pre @ d # post) \<Longrightarrow>
     \<exists>lp l lpost. ls = lp @ l # lpost \<and> carries unmarshal lp pre \<and> newline \<notin> set l \<and>
        unmarshal (l @ [newline]) = Inr d \<and> carries unmarshal lpost post"
  unfolding carries_def by (auto simp: list_all2_append2 list_all2_Cons2)

lemma records_split:
  "records (lp @ l # lpost) @ rest = records lp @ l @ newline # (records lpost @ rest)"
  by (simp add: records_def)

lemma Content_contentDelta:
  "map ProviderEvent.Content (map contentDelta ss) = ss"
  by (induction ss) (simp_all add: contentDelta_def)

lemma filter_deltas:
  "Type e \<noteq> EventContentDelta \<Longrightarrow>
     filter (\<lambda>ev. Type ev = EventContentDelta) (map contentDelta ss @ [e]) = map contentDelta ss"
  by (induction ss) (simp_all add: Type_simps)

lemma Response_complete:
  "Response (complete text usage) =
     Some \<lparr>ProviderResponse.Content = text, Usage = usage, FinishReason = FinishReasonEndTurn\<rparr>"
  by (simp add: complete_def)

section \<open>The scripted backend\<close>

lemma answered_scripted:
  "answered (scripted script status body fin) c streaming messages
     \<lparr>StatusCode = status, Body = \<lparr>pending = body, ending = fin\<rparr>\<rparr>"
  by (simp add: answered_def scripted_def)

lemma carries_counting:
  "carries (Unmarshal (scripted counting status body fin)) (map fst counting) (map snd counting)"
  by (simp add: carries_def scripted_def tableDecoder_def counting_def newline_def)

lemma Done_last_counting: "Done (last (map snd counting))"
  by (simp add: counting_def fragment_def)

section \<open>Streaming mode\<close>

text \<open>
  C1. In streaming mode, for every sequence of backend fragments that ends with a
  fragment whose done flag is set, the payloads of the content-delta events, put together
  in emission order, are the content of the response that the complete event carries.
  This holds of every complete event the call emits; and the call does emit one when no
  fragment of the sequence carries an error string.
\<close>

theorem stream_deltas_concat_is_complete_content:
  assumes "answered lib c True messages resp"
    and "StatusCode resp = StatusOK"
    and "pending (Body resp) = records ls @ rest"
    and "carries (Unmarshal lib) ls frs"
    and "frs \<noteq> []"
    and "Done (last frs)"
  shows "(\<forall>ev \<in> set (stream lib c messages). Type ev = EventComplete \<longrightarrow>
            (\<exists>r. Response ev = Some r \<and>
                 ProviderResponse.Content r =
                   concat (map ProviderEvent.Content
                     (filter (\<lambda>e. Type e = EventContentDelta) (stream lib c messages))))) \<and>
         ((\<forall>f \<in> set frs. ollamaResponse.Error f = '''') \<longrightarrow>
            (\<exists>ev \<in> set (stream lib c messages). Type ev = EventComplete))"
proof (intro conjI ballI impI)
  obtain ss e where tr: "stream lib c messages = map contentDelta ss @ [e]"
    and e: "(\<exists>usage. e = complete (concat ss) usage) \<or> (\<exists>err. e = failed err)"
    using stream_trace by blast
  from e have nd: "Type e \<noteq> EventContentDelta" by (auto simp: Type_simps)
  have deltas: "concat (map ProviderEvent.Content
           (filter (\<lambda>e. Type e = EventContentDelta) (stream lib c messages))) = concat ss"
    by (simp only: tr filter_deltas [OF nd] Content_contentDelta)
  fix ev
  assume "ev \<in> set (stream lib c messages)" and c: "Type ev = EventComplete"
  then have "ev = e" by (auto simp: tr Type_simps)
  with c e obtain usage where "ev = complete (concat ss) usage"
    by (auto simp: Type_simps)
  then show "\<exists>r. Response ev = Some r \<and>
                 ProviderResponse.Content r =
                   concat (map ProviderEvent.Content
                     (filter (\<lambda>e. Type e = EventContentDelta) (stream lib c messages)))"
    by (simp add: deltas Response_complete)
next
  assume noerr: "\<forall>f \<in> set frs. ollamaResponse.Error f = ''''"
  from assms(5,6) have "\<exists>d \<in> set frs. Done d" using last_in_set by blast
  then obtain pre d post where frs: "frs = pre @ d # post" and d: "Done d"
    and pre: "\<forall>f \<in> set pre. \<not> Done f"
    using split_list_first_prop [of frs Done] by blast
  from assms(4) obtain lp l lpost where ls: "ls = lp @ l # lpost"
    and c: "carries (Unmarshal lib) lp pre" "newline \<notin> set l"
      "Unmarshal lib (l @ [newline]) = Inr d"
    unfolding frs by (blast dest: carries_split)
  have p: "pending (Body resp) = records lp @ l @ newline # (records lpost @ rest)"
    by (simp only: assms(3) ls records_split)
  have pre': "\<forall>f \<in> set pre. \<not> Done f \<and> ollamaResponse.Error f = ''''"
    using pre noerr frs by simp
  have "ollamaResponse.Error d = ''''" using noerr frs by simp
  from readLoop_first_done [OF c(1) pre' c(2) c(3) d this p, of "''''"]
  have "stream lib c messages =
          map contentDelta (increments (pre @ [d])) @
          [complete ('''' @ concat (increments (pre @ [d])))
             \<lparr>InputTokens = PromptTokens (ollamaResponse.Usage d),
              OutputTokens = CompletionTokens (ollamaResponse.Usage d)\<rparr>]"
    by (simp add: stream_answered [OF assms(1)] assms(2))
  then show "\<exists>ev \<in> set (stream lib c messages). Type ev = EventComplete"
    by (simp add: Type_simps)
qed

theorem stream_deltas_concat_is_complete_content_witness:
  "answered (scripted counting 200 (records (map fst counting)) EOF) (localClient []) True []
     \<lparr>StatusCode = 200, Body = \<lparr>pending = records (map fst counting), ending = EOF\<rparr>\<rparr> \<and>
   carries (Unmarshal (scripted counting 200 (records (map fst counting)) EOF))
     (map fst counting) (map snd counting) \<and>
   map snd counting \<noteq> [] \<and> Done (last (map snd counting)) \<and>
   list_all (\<lambda>f. ollamaResponse.Error f = []) (map snd counting) \<and>
   (\<exists>ev \<in> set (stream (scripted counting 200 (records (map fst counting)) EOF)
                   (localClient []) []).
      \<exists>r. Type ev = EventComplete \<and> Response ev = Some r \<and>
          ProviderResponse.Content r =
            concat (map ProviderEvent.Content
              (filter (\<lambda>e. Type e = EventContentDelta)
                 (stream (scripted counting 200 (records (map fst counting)) EOF)
                    (localClient []) []))))"
proof -
  let ?resp = "\<lparr>StatusCode = 200, Body = \<lparr>pending = records (map fst counting), ending = EOF\<rparr>\<rparr>"
  have h1: "answered (scripted counting 200 (records (map fst counting)) EOF) (localClient [])
              True [] ?resp"
    by (rule answered_scripted)
  have h2: "StatusCode ?resp = StatusOK" by (simp add: StatusOK_def)
  have h3: "pending (Body ?resp) = records (map fst counting) @ []" by simp
  have h4: "carries (Unmarshal (scripted counting 200 (records (map fst counting)) EOF))
              (map fst counting) (map snd counting)"
    by (rule carries_counting)
  have h5: "map snd counting \<noteq> []" by (simp add: counting_def)
  have h6: "list_all (\<lambda>f. ollamaResponse.Error f = []) (map snd counting)"
    by (simp add: counting_def fragment_def)
  then have h6': "\<forall>f \<in> set (map snd counting). ollamaResponse.Error f = []"
    by (simp only: list_all_iff)
  from stream_deltas_concat_is_complete_content [OF h1 h2 h3 h4 h5 Done_last_counting] h6'
  have "\<exists>ev \<in> set (stream (scripted counting 200 (records (map fst counting)) EOF)
                   (localClient []) []).
      \<exists>r. Type ev = EventComplete \<and> Response ev = Some r \<and>
          ProviderResponse.Content r =
            concat (map ProviderEvent.Content
              (filter (\<lambda>e. Type e = EventContentDelta)
                 (stream (scripted counting 200 (records (map fst counting)) EOF)
                    (localClient []) [])))"
    by blast
  with h1 h4 h5 h6 Done_last_counting show ?thesis by blast
qed

text \<open>
  C2. For every input, every library behaviour and every body, the events of one call are
  content-delta events followed by exactly one terminal event (complete or error), which
  is the last event. When the body is a sequence of records that carry fragments, the
  payloads of the content-delta events are the increments of a prefix of the fragments,
  in the order of delivery.
\<close>

theorem stream_deltas_then_one_terminal:
  "\<exists>ds e. stream lib c messages = ds @ [e] \<and>
      (\<forall>d \<in> set ds. Type d = EventContentDelta) \<and>
      (Type e = EventComplete \<or> Type e = EventError) \<and>
      (\<forall>resp ls frs rest.
          answered lib c True messages resp \<and> StatusCode resp = StatusOK \<and>
          pending (Body resp) = records ls @ rest \<and> newline \<notin> set rest \<and>
          carries (Unmarshal lib) ls frs \<longrightarrow>
          (\<exists>k \<le> length frs. map ProviderEvent.Content ds = increments (take k frs)))"
proof -
  obtain ss e where tr: "stream lib c messages = map contentDelta ss @ [e]"
    and e: "(\<exists>usage. e = complete (concat ss) usage) \<or> (\<exists>err. e = failed err)"
    using stream_trace by blast
  have "\<exists>k \<le> length frs. map ProviderEvent.Content (map contentDelta ss) = increments (take k frs)"
    if h: "answered lib c True messages resp" "StatusCode resp = StatusOK"
      "pending (Body resp) = records ls @ rest" "newline \<notin> set rest"
      "carries (Unmarshal lib) ls frs" for resp ls frs rest
  proof -
    from readLoop_prefix [OF h(5) h(3) h(4), of "''''"]
    obtain k e' where k: "k \<le> length frs"
      and run: "readLoop (Unmarshal lib) (Body resp) '''' =
                  map contentDelta (increments (take k frs)) @ [e']"
      by blast
    have "map contentDelta ss @ [e] = map contentDelta (increments (take k frs)) @ [e']"
      using stream_answered [OF h(1)] h(2) run tr by simp
    then have "map contentDelta ss = map contentDelta (increments (take k frs))"
      by simp
    then have "map ProviderEvent.Content (map contentDelta ss) = increments (take k frs)"
      by (simp only: Content_contentDelta)
    with k show ?thesis by blast
  qed
  moreover have "\<forall>d \<in> set (map contentDelta ss). Type d = EventContentDelta"
    by (auto simp: Type_simps)
  moreover have "Type e = EventComplete \<or> Type e = EventError"
    using e by (auto simp: Type_simps)
  ultimately show ?thesis
    using tr by (intro exI [of _ "map contentDelta ss"] exI [of _ e]) blast
qed

theorem stream_deltas_then_one_terminal_witness:
  "answered (scripted counting 200 (records (map fst counting)) EOF) (localClient []) True []
     \<lparr>StatusCode = 200, Body = \<lparr>pending = records (map fst counting), ending = EOF\<rparr>\<rparr> \<and>
   carries (Unmarshal (scripted counting 200 (records (map fst counting)) EOF))
     (map fst counting) (map snd counting) \<and>
   (\<exists>ds e. stream (scripted counting 200 (records (map fst counting)) EOF) (localClient []) [] =
             ds @ [e] \<and>
      (\<forall>d \<in> set ds. Type d = EventContentDelta) \<and>
      (Type e = EventComplete \<or> Type e = EventError) \<and>
      (\<exists>k \<le> length (map snd counting).
          map ProviderEvent.Content ds = increments (take k (map snd counting))))"
proof -
  let ?resp = "\<lparr>StatusCode = 200, Body = \<lparr>pending = records (map fst counting), ending = EOF\<rparr>\<rparr>"
  let ?lib = "scripted counting 200 (records (map fst counting)) EOF"
  have h1: "answered ?lib (localClient []) True [] ?resp"
    by (rule answered_scripted)
  have h2: "StatusCode ?resp = StatusOK" by (simp add: StatusOK_def)
  have h3: "pending (Body ?resp) = records (map fst counting) @ []" by simp
  have h4: "carries (Unmarshal ?lib) (map fst counting) (map snd counting)"
    by (rule carries_counting)
  have h5: "newline \<notin> set []" by simp
  from stream_deltas_then_one_terminal [of ?lib "localClient []" "[]"]
  obtain ds e where run: "stream ?lib (localClient []) [] = ds @ [e]"
    "\<forall>d \<in> set ds. Type d = EventContentDelta"
    "Type e = EventComplete \<or> Type e = EventError"
    and order: "\<forall>resp ls frs rest.
          answered ?lib (localClient []) True [] resp \<and> StatusCode resp = StatusOK \<and>
          pending (Body resp) = records ls @ rest \<and> newline \<notin> set rest \<and>
          carries (Unmarshal ?lib) ls frs \<longrightarrow>
          (\<exists>k \<le> length frs. map ProviderEvent.Content ds = increments (take k frs))"
    by blast
  from order h1 h2 h3 h4 h5
  have "\<exists>k \<le> length (map snd counting).
          map ProviderEvent.Content ds = increments (take k (map snd counting))"
    by blast
  with run h1 h4 show ?thesis by blast
qed

text \<open>The first fragment with an error string ends the run with a failure.\<close>

lemma readLoop_first_error:
  assumes "carries unmarshal ls pre"
    and "\<forall>f \<in> set pre. \<not> Done f \<and> ollamaResponse.Error f = ''''"
    and "newline \<notin> set l" and "unmarshal (l @ [newline]) = Inr d"
    and "ollamaResponse.Error d \<noteq> ''''"
    and "pending reader = records ls @ l @ newline # rest"
  shows "readLoop unmarshal reader fullContent =
           map contentDelta (increments pre) @
           [failed (New (''ollama API error: '' @ ollamaResponse.Error d))]"
proof -
  have "readLoop unmarshal reader fullContent =
          map contentDelta (increments pre) @
          readLoop unmarshal (reader\<lparr>pending := l @ newline # rest\<rparr>)
            (fullContent @ concat (increments pre))"
    using assms(1,2,6) by (rule readLoop_carries)
  moreover have "readLoop unmarshal (reader\<lparr>pending := l @ newline # rest\<rparr>)
            (fullContent @ concat (increments pre)) =
          [failed (New (''ollama API error: '' @ ollamaResponse.Error d))]"
    using readLoop_fragment [of l "reader\<lparr>pending := l @ newline # rest\<rparr>" rest unmarshal d
        "fullContent @ concat (increments pre)"] assms(3-5)
    by simp
  ultimately show ?thesis by simp
qed

text \<open>
  C3, amended to what the code does. In streaming mode, for every sequence of fragments none of
  which has the done flag or an error string, delivered as records and followed by the
  end of the stream (after an unfinished last record or none), the call emits the
  increments as content-delta events and then, as its terminal event, a complete event
  that carries the accumulated content.
\<close>

theorem stream_end_without_done_completes:
  assumes "answered lib c True messages resp"
    and "StatusCode resp = StatusOK"
    and "pending (Body resp) = records ls @ rest"
    and "newline \<notin> set rest"
    and "ending (Body resp) = EOF"
    and "carries (Unmarshal lib) ls frs"
    and "\<forall>f \<in> set frs. \<not> Done f \<and> ollamaResponse.Error f = ''''"
  shows "stream lib c messages =
           map contentDelta (increments frs) @
           [complete (concat (map (\<lambda>f. ollamaMessage.Content (Message f)) frs))
              \<lparr>InputTokens = 0, OutputTokens = 0\<rparr>]"
proof -
  have "readLoop (Unmarshal lib) (Body resp) '''' =
          map contentDelta (increments frs) @
          readLoop (Unmarshal lib) ((Body resp)\<lparr>pending := rest\<rparr>) ('''' @ concat (increments frs))"
    using assms(6,7,3) by (rule readLoop_carries)
  moreover have "readLoop (Unmarshal lib) ((Body resp)\<lparr>pending := rest\<rparr>)
                   ('''' @ concat (increments frs)) =
          [complete ('''' @ concat (increments frs)) \<lparr>InputTokens = 0, OutputTokens = 0\<rparr>]"
    using assms(4,5) by (simp add: readLoop_end)
  ultimately show ?thesis
    using assms(2) by (simp add: stream_answered [OF assms(1)] concat_increments)
qed

theorem stream_end_without_done_completes_witness:
  "answered (scripted (butlast counting) 200 (records (map fst (butlast counting))) EOF)
     (localClient []) True []
     \<lparr>StatusCode = 200,
      Body = \<lparr>pending = records (map fst (butlast counting)), ending = EOF\<rparr>\<rparr> \<and>
   carries (Unmarshal (scripted (butlast counting) 200 (records (map fst (butlast counting))) EOF))
     (map fst (butlast counting)) (map snd (butlast counting)) \<and>
   list_all (\<lambda>f. \<not> Done f \<and> ollamaResponse.Error f = []) (map snd (butlast counting)) \<and>
   stream (scripted (butlast counting) 200 (records (map fst (butlast counting))) EOF)
     (localClient []) [] =
     [contentDelta ''1'', contentDelta ''2'',
      complete ''12'' \<lparr>InputTokens = 0, OutputTokens = 0\<rparr>]"
proof -
  let ?script = "butlast counting"
  let ?lib = "scripted ?script 200 (records (map fst ?script)) EOF"
  let ?resp = "\<lparr>StatusCode = 200, Body = \<lparr>pending = records (map fst ?script), ending = EOF\<rparr>\<rparr>"
  have h1: "answered ?lib (localClient []) True [] ?resp"
    by (rule answered_scripted)
  have h2: "StatusCode ?resp = StatusOK" by (simp add: StatusOK_def)
  have h3: "pending (Body ?resp) = records (map fst ?script) @ []" by simp
  have h4: "newline \<notin> set []" by simp
  have h5: "ending (Body ?resp) = EOF" by simp
  have h6: "carries (Unmarshal ?lib) (map fst ?script) (map snd ?script)"
    by (simp add: carries_def scripted_def tableDecoder_def counting_def newline_def)
  have h7: "list_all (\<lambda>f. \<not> Done f \<and> ollamaResponse.Error f = []) (map snd ?script)"
    by (simp add: counting_def fragment_def)
  then have h7': "\<forall>f \<in> set (map snd ?script). \<not> Done f \<and> ollamaResponse.Error f = []"
    by (simp only: list_all_iff)
  have "stream ?lib (localClient []) [] =
     [contentDelta ''1'', contentDelta ''2'',
      complete ''12'' \<lparr>InputTokens = 0, OutputTokens = 0\<rparr>]"
    using stream_end_without_done_completes [OF h1 h2 h3 h4 h5 h6 h7']
    by (simp add: counting_def fragment_def increments_def)
  with h1 h6 h7 show ?thesis by blast
qed

text \<open>
  C3 as the specification words it does not hold: a sequence of two fragments without
  done flag, the second with the error string \<open>boom\<close>, followed by the end of the
  stream, yields a content-delta event and then an error event, and no complete event.
\<close>

theorem stream_end_without_done_counterexample:
  "carries
     (Unmarshal (scripted [(''one'', fragment ''1'' False [] 0 0),
                           (''fail'', fragment [] False ''boom'' 0 0)]
                   200 (records [''one'', ''fail'']) EOF))
     [''one'', ''fail'']
     [fragment ''1'' False [] 0 0, fragment [] False ''boom'' 0 0] \<and>
   list_all (\<lambda>f. \<not> Done f) [fragment ''1'' False [] 0 0, fragment [] False ''boom'' 0 0] \<and>
   stream (scripted [(''one'', fragment ''1'' False [] 0 0),
                     (''fail'', fragment [] False ''boom'' 0 0)]
             200 (records [''one'', ''fail'']) EOF)
     (localClient []) [] =
     [contentDelta ''1'', failed (New ''ollama API error: boom'')]"
proof -
  let ?script = "[(''one'', fragment ''1'' False [] 0 0), (''fail'', fragment [] False ''boom'' 0 0)]"
  let ?lib = "scripted ?script 200 (records [''one'', ''fail'']) EOF"
  let ?resp = "\<lparr>StatusCode = 200, Body = \<lparr>pending = records [''one'', ''fail''], ending = EOF\<rparr>\<rparr>"
  have c: "carries (Unmarshal ?lib) [''one'', ''fail'']
             [fragment ''1'' False [] 0 0, fragment [] False ''boom'' 0 0]"
    by (simp add: carries_def scripted_def tableDecoder_def newline_def)
  have c1: "carries (Unmarshal ?lib) [''one''] [fragment ''1'' False [] 0 0]"
    using c by (simp add: carries_def)
  have d: "Unmarshal ?lib (''fail'' @ [newline]) = Inr (fragment [] False ''boom'' 0 0)"
    using c by (simp add: carries_def)
  have nd: "list_all (\<lambda>f. \<not> Done f) [fragment ''1'' False [] 0 0, fragment [] False ''boom'' 0 0]"
    by (simp add: fragment_def)
  have "readLoop (Unmarshal ?lib) (Body ?resp) [] =
          map contentDelta (increments [fragment ''1'' False [] 0 0]) @
          [failed (New (''ollama API error: '' @
                        ollamaResponse.Error (fragment [] False ''boom'' 0 0)))]"
    by (rule readLoop_first_error [OF c1 _ _ d, where rest = "[]"])
       (simp_all add: fragment_def newline_def records_def)
  then have "stream ?lib (localClient []) [] =
     [contentDelta ''1'', failed (New ''ollama API error: boom'')]"
    by (simp add: stream_answered [OF answered_scripted] StatusOK_def fragment_def increments_def)
  with c nd show ?thesis by blast
qed

text \<open>
  C9. In streaming mode, over records that carry fragments: when no fragment has the
  done flag, every complete event of the call carries the token counters zero and zero,
  and when moreover no fragment has an error string and the stream ends, the last event
  is that complete event; whereas when a fragment has the done flag, and no error string
  occurs up to it, the last event is a complete event with the prompt and completion
  counters of that fragment.
\<close>

theorem stream_complete_usage:
  assumes "answered lib c True messages resp"
    and "StatusCode resp = StatusOK"
    and "pending (Body resp) = records ls @ rest"
    and "newline \<notin> set rest"
    and "carries (Unmarshal lib) ls frs"
  shows "((\<forall>f \<in> set frs. \<not> Done f) \<longrightarrow>
            (\<forall>ev \<in> set (stream lib c messages). Type ev = EventComplete \<longrightarrow>
               (\<exists>r. Response ev = Some r \<and>
                    ProviderResponse.Usage r = \<lparr>InputTokens = 0, OutputTokens = 0\<rparr>))) \<and>
         ((\<forall>f \<in> set frs. \<not> Done f \<and> ollamaResponse.Error f = '''') \<and>
          ending (Body resp) = EOF \<longrightarrow>
            last (stream lib c messages) =
              complete (concat (map (\<lambda>f. ollamaMessage.Content (Message f)) frs))
                \<lparr>InputTokens = 0, OutputTokens = 0\<rparr>) \<and>
         (\<forall>pre d post.
            frs = pre @ d # post \<and>
            (\<forall>f \<in> set pre. \<not> Done f \<and> ollamaResponse.Error f = '''') \<and>
            Done d \<and> ollamaResponse.Error d = '''' \<longrightarrow>
            last (stream lib c messages) =
              complete (concat (map (\<lambda>f. ollamaMessage.Content (Message f)) (pre @ [d])))
                \<lparr>InputTokens = PromptTokens (ollamaResponse.Usage d),
                 OutputTokens = CompletionTokens (ollamaResponse.Usage d)\<rparr>)"
proof (intro conjI impI allI ballI)
  note run = stream_answered [OF assms(1)]
  {
    fix ev
    assume nodone: "\<forall>f \<in> set frs. \<not> Done f"
      and ev: "ev \<in> set (stream lib c messages)" "Type ev = EventComplete"
    from readLoop_prefix [OF assms(5) assms(3) assms(4), of "''''"] nodone
    obtain k e where loop: "readLoop (Unmarshal lib) (Body resp) '''' =
          map contentDelta (increments (take k frs)) @ [e]"
      and e: "(\<exists>err. e = failed err) \<or>
              e = complete ('''' @ concat (increments (take k frs)))
                    \<lparr>InputTokens = 0, OutputTokens = 0\<rparr>"
      by blast
    from ev have "ev = e"
      using assms(2) by (auto simp: run loop Type_simps)
    with ev(2) e have "ev = complete ('''' @ concat (increments (take k frs)))
                    \<lparr>InputTokens = 0, OutputTokens = 0\<rparr>"
      by (auto simp: Type_simps)
    then show "\<exists>r. Response ev = Some r \<and>
                    ProviderResponse.Usage r = \<lparr>InputTokens = 0, OutputTokens = 0\<rparr>"
      by (simp add: Response_complete)
  }
  {
    assume h: "(\<forall>f \<in> set frs. \<not> Done f \<and> ollamaResponse.Error f = '''') \<and>
               ending (Body resp) = EOF"
    then have clean: "\<forall>f \<in> set frs. \<not> Done f \<and> ollamaResponse.Error f = ''''"
      and eof: "ending (Body resp) = EOF"
      by blast+
    have "readLoop (Unmarshal lib) (Body resp) '''' =
          map contentDelta (increments frs) @
          readLoop (Unmarshal lib) ((Body resp)\<lparr>pending := rest\<rparr>) ('''' @ concat (increments frs))"
      using assms(5) clean assms(3) by (rule readLoop_carries)
    moreover have "readLoop (Unmarshal lib) ((Body resp)\<lparr>pending := rest\<rparr>)
                     ('''' @ concat (increments frs)) =
          [complete ('''' @ concat (increments frs)) \<lparr>InputTokens = 0, OutputTokens = 0\<rparr>]"
      using assms(4) eof by (simp add: readLoop_end)
    ultimately show "last (stream lib c messages) =
              complete (concat (map (\<lambda>f. ollamaMessage.Content (Message f)) frs))
                \<lparr>InputTokens = 0, OutputTokens = 0\<rparr>"
      using assms(2) by (simp add: run concat_increments)
  }
  {
    fix pre d post
    assume h: "frs = pre @ d # post \<and>
            (\<forall>f \<in> set pre. \<not> Done f \<and> ollamaResponse.Error f = '''') \<and>
            Done d \<and> ollamaResponse.Error d = ''''"
    then have frs: "frs = pre @ d # post"
      and pre: "\<forall>f \<in> set pre. \<not> Done f \<and> ollamaResponse.Error f = ''''"
      and d: "Done d" "ollamaResponse.Error d = ''''"
      by blast+
    from assms(5) obtain lp l lpost where ls: "ls = lp @ l # lpost"
      and cr: "carries (Unmarshal lib) lp pre" "newline \<notin> set l"
        "Unmarshal lib (l @ [newline]) = Inr d"
      unfolding frs by (blast dest: carries_split)
    have p: "pending (Body resp) = records lp @ l @ newline # (records lpost @ rest)"
      by (simp only: assms(3) ls records_split)
    from readLoop_first_done [OF cr(1) pre cr(2) cr(3) d p, of "''''"]
    show "last (stream lib c messages) =
              complete (concat (map (\<lambda>f. ollamaMessage.Content (Message f)) (pre @ [d])))
                \<lparr>InputTokens = PromptTokens (ollamaResponse.Usage d),
                 OutputTokens = CompletionTokens (ollamaResponse.Usage d)\<rparr>"
      using assms(2) by (simp add: run concat_increments)
  }
qed

theorem stream_complete_usage_witness:
  "carries (Unmarshal (scripted counting 200 (records (map fst (butlast counting))) EOF))
     (map fst (butlast counting)) (map snd (butlast counting)) \<and>
   list_all (\<lambda>f. \<not> Done f \<and> ollamaResponse.Error f = []) (map snd (butlast counting)) \<and>
   last (stream (scripted counting 200 (records (map fst (butlast counting))) EOF)
           (localClient []) []) =
     complete ''12'' \<lparr>InputTokens = 0, OutputTokens = 0\<rparr> \<and>
   carries (Unmarshal (scripted counting 200 (records (map fst counting)) EOF))
     (map fst counting) (map snd counting) \<and>
   Done (fragment [] True [] 2 2) \<and>
   last (stream (scripted counting 200 (records (map fst counting)) EOF) (localClient []) []) =
     complete ''12'' \<lparr>InputTokens = 2, OutputTokens = 2\<rparr>"
proof -
  let ?cut = "scripted counting 200 (records (map fst (butlast counting))) EOF"
  let ?cutresp = "\<lparr>StatusCode = 200,
                   Body = \<lparr>pending = records (map fst (butlast counting)), ending = EOF\<rparr>\<rparr>"
  let ?all = "scripted counting 200 (records (map fst counting)) EOF"
  let ?allresp = "\<lparr>StatusCode = 200,
                   Body = \<lparr>pending = records (map fst counting), ending = EOF\<rparr>\<rparr>"
  have a1: "answered ?cut (localClient []) True [] ?cutresp"
    and a2: "answered ?all (localClient []) True [] ?allresp"
    by (rule answered_scripted)+
  have s1: "StatusCode ?cutresp = StatusOK" and s2: "StatusCode ?allresp = StatusOK"
    by (simp_all add: StatusOK_def)
  have p1: "pending (Body ?cutresp) = records (map fst (butlast counting)) @ []"
    and p2: "pending (Body ?allresp) = records (map fst counting) @ []"
    by simp_all
  have n: "newline \<notin> set []" by simp
  have c1: "carries (Unmarshal ?cut) (map fst (butlast counting)) (map snd (butlast counting))"
    by (simp add: carries_def scripted_def tableDecoder_def counting_def newline_def)
  have c2: "carries (Unmarshal ?all) (map fst counting) (map snd counting)"
    by (rule carries_counting)
  have clean: "list_all (\<lambda>f. \<not> Done f \<and> ollamaResponse.Error f = [])
                 (map snd (butlast counting))"
    by (simp add: counting_def fragment_def)
  then have clean': "\<forall>f \<in> set (map snd (butlast counting)).
                       \<not> Done f \<and> ollamaResponse.Error f = []"
    by (simp only: list_all_iff)
  have e1: "ending (Body ?cutresp) = EOF" by simp
  from stream_complete_usage [OF a1 s1 p1 n c1] clean' e1
  have "last (stream ?cut (localClient []) []) =
          complete (concat (map (\<lambda>f. ollamaMessage.Content (Message f))
                      (map snd (butlast counting))))
            \<lparr>InputTokens = 0, OutputTokens = 0\<rparr>"
    by blast
  then have made_up: "last (stream ?cut (localClient []) []) =
          complete ''12'' \<lparr>InputTokens = 0, OutputTokens = 0\<rparr>"
    by (simp add: counting_def fragment_def)
  have split: "map snd counting =
          [fragment ''1'' False [] 0 0, fragment ''2'' False [] 0 0] @
          fragment [] True [] 2 2 # []"
    by (simp add: counting_def)
  have pre: "\<forall>f \<in> set [fragment ''1'' False [] 0 0, fragment ''2'' False [] 0 0].
               \<not> Done f \<and> ollamaResponse.Error f = []"
    by (simp add: fragment_def)
  have d: "Done (fragment [] True [] 2 2)" "ollamaResponse.Error (fragment [] True [] 2 2) = []"
    by (simp_all add: fragment_def)
  from stream_complete_usage [OF a2 s2 p2 n c2] split pre d
  have "last (stream ?all (localClient []) []) =
          complete (concat (map (\<lambda>f. ollamaMessage.Content (Message f))
                      ([fragment ''1'' False [] 0 0, fragment ''2'' False [] 0 0] @
                       [fragment [] True [] 2 2])))
            \<lparr>InputTokens = PromptTokens (ollamaResponse.Usage (fragment [] True [] 2 2)),
             OutputTokens = CompletionTokens (ollamaResponse.Usage (fragment [] True [] 2 2))\<rparr>"
    by blast
  then have reported: "last (stream ?all (localClient []) []) =
          complete ''12'' \<lparr>InputTokens = 2, OutputTokens = 2\<rparr>"
    by (simp add: fragment_def)
  from c1 clean made_up c2 d(1) reported show ?thesis by blast
qed

text \<open>
  C4, what the code does. A read that returns no error returns the record with its
  newline, so a blank line is the one-byte record that holds the newline alone: its
  length is not zero, the test for an empty record does not apply, and the record is
  handed to the decoder. When the decoder rejects it, the call ends with an error event
  after the deltas of the fragments before the blank line, and reads nothing further.
\<close>

theorem stream_blank_record_is_decoded:
  assumes "answered lib c True messages resp"
    and "StatusCode resp = StatusOK"
    and "pending (Body resp) = records ls @ newline # rest"
    and "carries (Unmarshal lib) ls frs"
    and "\<forall>f \<in> set frs. \<not> Done f \<and> ollamaResponse.Error f = ''''"
    and "Unmarshal lib [newline] = Inl err"
  shows "ReadBytes newline ((Body resp)\<lparr>pending := newline # rest\<rparr>) =
           ([newline], None, (Body resp)\<lparr>pending := rest\<rparr>) \<and>
         stream lib c messages =
           map contentDelta (increments frs) @
           [failed (Wrap ''failed to unmarshal response: '' err)]"
proof
  show "ReadBytes newline ((Body resp)\<lparr>pending := newline # rest\<rparr>) =
           ([newline], None, (Body resp)\<lparr>pending := rest\<rparr>)"
    using ReadBytes_record [of "[]" "(Body resp)\<lparr>pending := newline # rest\<rparr>" rest] by simp
  have "readLoop (Unmarshal lib) (Body resp) '''' =
          map contentDelta (increments frs) @
          readLoop (Unmarshal lib) ((Body resp)\<lparr>pending := newline # rest\<rparr>)
            ('''' @ concat (increments frs))"
    using assms(4,5,3) by (rule readLoop_carries)
  moreover have "readLoop (Unmarshal lib) ((Body resp)\<lparr>pending := newline # rest\<rparr>)
                   ('''' @ concat (increments frs)) =
          [failed (Wrap ''failed to unmarshal response: '' err)]"
    using readLoop_undecodable [of "[]" "(Body resp)\<lparr>pending := newline # rest\<rparr>" rest
        "Unmarshal lib" err] assms(6)
    by simp
  ultimately show "stream lib c messages =
           map contentDelta (increments frs) @
           [failed (Wrap ''failed to unmarshal response: '' err)]"
    using assms(2) by (simp add: stream_answered [OF assms(1)])
qed

theorem stream_blank_record_is_decoded_witness:
  "Unmarshal (scripted counting 200 (records [''one''] @ newline # records [''two'', ''end'']) EOF)
     [newline] = Inl (New ''unexpected end of JSON input'') \<and>
   stream (scripted counting 200 (records [''one''] @ newline # records [''two'', ''end'']) EOF)
     (localClient []) [] =
     [contentDelta ''1'',
      failed (Wrap ''failed to unmarshal response: '' (New ''unexpected end of JSON input''))] \<and>
   stream (scripted counting 200 (records [''one''] @ records [''two'', ''end'']) EOF)
     (localClient []) [] =
     [contentDelta ''1'', contentDelta ''2'',
      complete ''12'' \<lparr>InputTokens = 2, OutputTokens = 2\<rparr>]"
proof -
  let ?body = "records [''one''] @ newline # records [''two'', ''end'']"
  let ?lib = "scripted counting 200 ?body EOF"
  let ?resp = "\<lparr>StatusCode = 200, Body = \<lparr>pending = ?body, ending = EOF\<rparr>\<rparr>"
  have a: "answered ?lib (localClient []) True [] ?resp"
    by (rule answered_scripted)
  have s: "StatusCode ?resp = StatusOK" by (simp add: StatusOK_def)
  have p: "pending (Body ?resp) = records [''one''] @ newline # records [''two'', ''end'']"
    by simp
  have c: "carries (Unmarshal ?lib) [''one''] [fragment ''1'' False [] 0 0]"
    by (simp add: carries_def scripted_def tableDecoder_def counting_def newline_def)
  have clean: "\<forall>f \<in> set [fragment ''1'' False [] 0 0]. \<not> Done f \<and> ollamaResponse.Error f = []"
    by (simp add: fragment_def)
  have blank: "Unmarshal ?lib [newline] = Inl (New ''unexpected end of JSON input'')"
    by (simp add: scripted_def tableDecoder_def counting_def newline_def)
  from stream_blank_record_is_decoded [OF a s p c clean blank]
  have broken: "stream ?lib (localClient []) [] =
     [contentDelta ''1'',
      failed (Wrap ''failed to unmarshal response: '' (New ''unexpected end of JSON input''))]"
    by (simp add: increments_def fragment_def)
  let ?plain = "scripted counting 200 (records [''one''] @ records [''two'', ''end'']) EOF"
  have body: "records [''one''] @ records [''two'', ''end''] = records (map fst counting)"
    by (simp add: records_def counting_def)
  have pre: "\<forall>f \<in> set [fragment ''1'' False [] 0 0, fragment ''2'' False [] 0 0].
               \<not> Done f \<and> ollamaResponse.Error f = []"
    by (simp add: fragment_def)
  have cp: "carries (Unmarshal ?plain) [''one'', ''two'']
              [fragment ''1'' False [] 0 0, fragment ''2'' False [] 0 0]"
    by (simp add: carries_def scripted_def tableDecoder_def counting_def newline_def)
  have last: "Unmarshal ?plain (''end'' @ [newline]) = Inr (fragment [] True [] 2 2)"
    by (simp add: scripted_def tableDecoder_def counting_def newline_def)
  have "readLoop (Unmarshal ?plain)
          \<lparr>pending = records [''one''] @ records [''two'', ''end''], ending = EOF\<rparr> [] =
        map contentDelta (increments ([fragment ''1'' False [] 0 0, fragment ''2'' False [] 0 0] @
                                      [fragment [] True [] 2 2])) @
        [complete ([] @ concat (increments
                     ([fragment ''1'' False [] 0 0, fragment ''2'' False [] 0 0] @
                      [fragment [] True [] 2 2])))
           \<lparr>InputTokens = PromptTokens (ollamaResponse.Usage (fragment [] True [] 2 2)),
            OutputTokens = CompletionTokens (ollamaResponse.Usage (fragment [] True [] 2 2))\<rparr>]"
    by (rule readLoop_first_done [OF cp pre _ last, where rest = "[]"])
       (simp_all add: fragment_def newline_def records_def)
  then have whole: "stream ?plain (localClient []) [] =
     [contentDelta ''1'', contentDelta ''2'',
      complete ''12'' \<lparr>InputTokens = 2, OutputTokens = 2\<rparr>]"
    by (simp add: stream_answered [OF answered_scripted] StatusOK_def fragment_def increments_def)
  from blank broken whole show ?thesis by blast
qed

section \<open>The status of the response and synchronous mode\<close>

text \<open>
  C5, amended to what the code does. The status that counts as success is 200 alone.
  For every response with another status: \<open>send\<close>, once it has read the body to its
  end, returns the error whose text is the fixed prefix followed by the body, and
  \<open>stream\<close> emits exactly one event, the error event with that text, and no
  content-delta event. With status 200 neither call takes this branch: \<open>send\<close> goes
  on to decode the body and \<open>stream\<close> enters the read loop. And whatever the status,
  when the read of the body fails, \<open>send\<close> returns that read failure, wrapped, and
  not the bytes that were read.
\<close>

theorem status_not_ok_fails_with_body:
  "(answered lib c False messages resp \<and> StatusCode resp \<noteq> StatusOK \<and>
    ending (Body resp) = EOF \<longrightarrow>
      send lib c messages = Inl (New (''ollama API error: '' @ pending (Body resp)))) \<and>
   (answered lib c True messages resp \<and> StatusCode resp \<noteq> StatusOK \<longrightarrow>
      stream lib c messages = [failed (New (''ollama API error: '' @ pending (Body resp)))]) \<and>
   (answered lib c False messages resp \<and> StatusCode resp = StatusOK \<and>
    ending (Body resp) = EOF \<longrightarrow>
      send lib c messages =
        (case Unmarshal lib (pending (Body resp)) of
           Inl err \<Rightarrow> Inl (Wrap ''failed to unmarshal response: '' err)
         | Inr f \<Rightarrow>
             if ollamaResponse.Error f \<noteq> ''''
             then Inl (New (''ollama API error: '' @ ollamaResponse.Error f))
             else Inr \<lparr>ProviderResponse.Content = ollamaMessage.Content (Message f),
                       Usage = \<lparr>InputTokens = PromptTokens (ollamaResponse.Usage f),
                                 OutputTokens = CompletionTokens (ollamaResponse.Usage f)\<rparr>,
                       FinishReason = FinishReasonEndTurn\<rparr>)) \<and>
   (answered lib c True messages resp \<and> StatusCode resp = StatusOK \<longrightarrow>
      stream lib c messages = readLoop (Unmarshal lib) (Body resp) '''') \<and>
   (answered lib c False messages resp \<and> ending (Body resp) \<noteq> EOF \<longrightarrow>
      send lib c messages =
        Inl (Wrap ''failed to read response: '' (ending (Body resp))))"
  by (auto simp: send_answered stream_answered)

theorem status_not_ok_fails_with_body_witness:
  "StatusCode \<lparr>StatusCode = 500, Body = \<lparr>pending = ''model not found'', ending = EOF\<rparr>\<rparr>
     \<noteq> StatusOK \<and>
   send (scripted counting 500 ''model not found'' EOF) (localClient []) [] =
     Inl (New ''ollama API error: model not found'') \<and>
   stream (scripted counting 500 ''model not found'' EOF) (localClient []) [] =
     [failed (New ''ollama API error: model not found'')] \<and>
   send (scripted counting 200 (records [''end'']) EOF) (localClient []) [] =
     Inr \<lparr>ProviderResponse.Content = [], Usage = \<lparr>InputTokens = 2, OutputTokens = 2\<rparr>,
          FinishReason = FinishReasonEndTurn\<rparr> \<and>
   stream (scripted counting 200 (records [''end'']) EOF) (localClient []) [] =
     readLoop (Unmarshal (scripted counting 200 (records [''end'']) EOF))
       \<lparr>pending = records [''end''], ending = EOF\<rparr> [] \<and>
   ending (Body \<lparr>StatusCode = 503,
                 Body = \<lparr>pending = ''model not'', ending = New ''unexpected EOF''\<rparr>\<rparr>) \<noteq> EOF \<and>
   send (scripted counting 503 ''model not'' (New ''unexpected EOF'')) (localClient []) [] =
     Inl (Wrap ''failed to read response: '' (New ''unexpected EOF'')) \<and>
   send (scripted counting 200 ''{'' (New ''unexpected EOF'')) (localClient []) [] =
     Inl (Wrap ''failed to read response: '' (New ''unexpected EOF''))"
proof -
  let ?bad = "\<lparr>StatusCode = 500, Body = \<lparr>pending = ''model not found'', ending = EOF\<rparr>\<rparr>"
  let ?good = "\<lparr>StatusCode = 200, Body = \<lparr>pending = records [''end''], ending = EOF\<rparr>\<rparr>"
  let ?cut = "\<lparr>StatusCode = 503,
               Body = \<lparr>pending = ''model not'', ending = New ''unexpected EOF''\<rparr>\<rparr>"
  let ?cutok = "\<lparr>StatusCode = 200,
                 Body = \<lparr>pending = ''{'', ending = New ''unexpected EOF''\<rparr>\<rparr>"
  have bad: "StatusCode ?bad \<noteq> StatusOK" "ending (Body ?bad) = EOF"
    by (simp_all add: StatusOK_def)
  have good: "StatusCode ?good = StatusOK" "ending (Body ?good) = EOF"
    by (simp_all add: StatusOK_def)
  have cut: "ending (Body ?cut) \<noteq> EOF" and cutok: "ending (Body ?cutok) \<noteq> EOF"
    by simp_all
  have decode: "Unmarshal (scripted counting 200 (records [''end'']) EOF) (records [''end'']) =
                  Inr (fragment [] True [] 2 2)"
    by (simp add: scripted_def tableDecoder_def counting_def records_def newline_def)
  note bad_send = status_not_ok_fails_with_body
      [of "scripted counting 500 ''model not found'' EOF" "localClient []" "[]" ?bad,
       THEN conjunct1, rule_format]
  note bad_stream = status_not_ok_fails_with_body
      [of "scripted counting 500 ''model not found'' EOF" "localClient []" "[]" ?bad,
       THEN conjunct2, THEN conjunct1, rule_format]
  note good_send = status_not_ok_fails_with_body
      [of "scripted counting 200 (records [''end'']) EOF" "localClient []" "[]" ?good,
       THEN conjunct2, THEN conjunct2, THEN conjunct1, rule_format]
  note good_stream = status_not_ok_fails_with_body
      [of "scripted counting 200 (records [''end'']) EOF" "localClient []" "[]" ?good,
       THEN conjunct2, THEN conjunct2, THEN conjunct2, THEN conjunct1, rule_format]
  note cut_send = status_not_ok_fails_with_body
      [of "scripted counting 503 ''model not'' (New ''unexpected EOF'')" "localClient []" "[]"
          ?cut,
       THEN conjunct2, THEN conjunct2, THEN conjunct2, THEN conjunct2, rule_format]
  note cutok_send = status_not_ok_fails_with_body
      [of "scripted counting 200 ''{'' (New ''unexpected EOF'')" "localClient []" "[]" ?cutok,
       THEN conjunct2, THEN conjunct2, THEN conjunct2, THEN conjunct2, rule_format]
  have r1: "send (scripted counting 500 ''model not found'' EOF) (localClient []) [] =
              Inl (New ''ollama API error: model not found'')"
    using bad_send [OF conjI [OF answered_scripted conjI [OF bad]]] by simp
  have r2: "stream (scripted counting 500 ''model not found'' EOF) (localClient []) [] =
              [failed (New ''ollama API error: model not found'')]"
    using bad_stream [OF conjI [OF answered_scripted bad(1)]] by simp
  have r3: "send (scripted counting 200 (records [''end'']) EOF) (localClient []) [] =
              Inr \<lparr>ProviderResponse.Content = [], Usage = \<lparr>InputTokens = 2, OutputTokens = 2\<rparr>,
                   FinishReason = FinishReasonEndTurn\<rparr>"
    using good_send [OF conjI [OF answered_scripted conjI [OF good]]]
    by (simp add: decode fragment_def)
  have r4: "stream (scripted counting 200 (records [''end'']) EOF) (localClient []) [] =
     readLoop (Unmarshal (scripted counting 200 (records [''end'']) EOF))
       \<lparr>pending = records [''end''], ending = EOF\<rparr> []"
    using good_stream [OF conjI [OF answered_scripted good(1)]] by simp
  have r5: "send (scripted counting 503 ''model not'' (New ''unexpected EOF''))
              (localClient []) [] =
            Inl (Wrap ''failed to read response: '' (New ''unexpected EOF''))"
    using cut_send [OF conjI [OF answered_scripted cut]] by simp
  have r6: "send (scripted counting 200 ''{'' (New ''unexpected EOF'')) (localClient []) [] =
            Inl (Wrap ''failed to read response: '' (New ''unexpected EOF''))"
    using cutok_send [OF conjI [OF answered_scripted cutok]] by simp
  from bad(1) r1 r2 r3 r4 cut r5 r6 show ?thesis by blast
qed

text \<open>
  C5 as the specification words it does not hold. Status 201 is a success status of
  the 2xx class, and both calls take the failure branch for it. And when the delivery of
  the body of a response with status 500 breaks off, \<open>send\<close> reports the read
  failure, and the bytes that did arrive are not part of the error.
\<close>

theorem status_not_ok_counterexample:
  "(200::int) \<le> 201 \<and> (201::int) < 300 \<and>
   send (scripted counting 201 ''created'' EOF) (localClient []) [] =
     Inl (New ''ollama API error: created'') \<and>
   stream (scripted counting 201 ''created'' EOF) (localClient []) [] =
     [failed (New ''ollama API error: created'')] \<and>
   send (scripted counting 500 ''model not'' (New ''connection reset'')) (localClient []) [] =
     Inl (Wrap ''failed to read response: '' (New ''connection reset''))"
  using send_answered [OF answered_scripted, of counting 201 "''created''" EOF "localClient []" "[]"]
    stream_answered [OF answered_scripted, of counting 201 "''created''" EOF "localClient []" "[]"]
    send_answered [OF answered_scripted, of counting 500 "''model not''"
      "New ''connection reset''" "localClient []" "[]"]
  by (simp add: StatusOK_def)

text \<open>
  C6. In synchronous mode, once the response has status 200 and its body has been read
  and decoded into a fragment: a non-empty error string makes \<open>send\<close> fail with the
  error that carries that string, and an empty one makes it succeed with the fragment's
  message content, the prompt and completion counters as input and output tokens, and the
  finish reason end of turn.
\<close>

theorem send_decoded_fragment:
  assumes "answered lib c False messages resp"
    and "StatusCode resp = StatusOK"
    and "ending (Body resp) = EOF"
    and "Unmarshal lib (pending (Body resp)) = Inr f"
  shows "(ollamaResponse.Error f \<noteq> '''' \<longrightarrow>
            send lib c messages = Inl (New (''ollama API error: '' @ ollamaResponse.Error f))) \<and>
         (ollamaResponse.Error f = '''' \<longrightarrow>
            send lib c messages =
              Inr \<lparr>ProviderResponse.Content = ollamaMessage.Content (Message f),
                   Usage = \<lparr>InputTokens = PromptTokens (ollamaResponse.Usage f),
                             OutputTokens = CompletionTokens (ollamaResponse.Usage f)\<rparr>,
                   FinishReason = FinishReasonEndTurn\<rparr>)"
  using assms(2-4) by (simp add: send_answered [OF assms(1)])

theorem send_decoded_fragment_witness:
  "send (scripted [(''reply'', fragment ''hello'' True [] 3 1)] 200 (records [''reply'']) EOF)
     (localClient [])
     [\<lparr>Message.Role = User, Message.Content = ''hi'', ToolCalls = [], ToolResults = []\<rparr>] =
     Inr \<lparr>ProviderResponse.Content = ''hello'',
          Usage = \<lparr>InputTokens = 3, OutputTokens = 1\<rparr>,
          FinishReason = FinishReasonEndTurn\<rparr> \<and>
   send (scripted [(''reply'', fragment [] False ''model not found'' 0 0)] 200
           (records [''reply'']) EOF)
     (localClient [])
     [\<lparr>Message.Role = User, Message.Content = ''hi'', ToolCalls = [], ToolResults = []\<rparr>] =
     Inl (New ''ollama API error: model not found'')"
proof -
  let ?resp = "\<lparr>StatusCode = 200, Body = \<lparr>pending = records [''reply''], ending = EOF\<rparr>\<rparr>"
  let ?history =
    "[\<lparr>Message.Role = User, Message.Content = ''hi'', ToolCalls = [], ToolResults = []\<rparr>]"
  have s: "StatusCode ?resp = StatusOK" and e: "ending (Body ?resp) = EOF"
    by (simp_all add: StatusOK_def)
  have d1: "Unmarshal (scripted [(''reply'', fragment ''hello'' True [] 3 1)] 200
                         (records [''reply'']) EOF)
              (pending (Body ?resp)) = Inr (fragment ''hello'' True [] 3 1)"
    by (simp add: scripted_def tableDecoder_def records_def newline_def)
  have d2: "Unmarshal (scripted [(''reply'', fragment [] False ''model not found'' 0 0)] 200
                         (records [''reply'']) EOF)
              (pending (Body ?resp)) = Inr (fragment [] False ''model not found'' 0 0)"
    by (simp add: scripted_def tableDecoder_def records_def newline_def)
  from send_decoded_fragment [OF answered_scripted s e d1, of "localClient []" ?history]
  have ok: "send (scripted [(''reply'', fragment ''hello'' True [] 3 1)] 200
                    (records [''reply'']) EOF) (localClient []) ?history =
     Inr \<lparr>ProviderResponse.Content = ''hello'',
          Usage = \<lparr>InputTokens = 3, OutputTokens = 1\<rparr>,
          FinishReason = FinishReasonEndTurn\<rparr>"
    by (simp add: fragment_def)
  from send_decoded_fragment [OF answered_scripted s e d2, of "localClient []" ?history]
  have err: "send (scripted [(''reply'', fragment [] False ''model not found'' 0 0)] 200
                     (records [''reply'']) EOF) (localClient []) ?history =
     Inl (New ''ollama API error: model not found'')"
    by (simp add: fragment_def)
  from ok err show ?thesis by blast
qed

section \<open>Translation of the history\<close>

text \<open>
  C7. For every conversation history: when the configured system message is not empty,
  the first wire turn is a system turn with that message as its content, and the turns
  after it are the translation of the history without a system message; when it is
  empty, the translation starts from nothing and holds no system turn at all.
\<close>

theorem convertMessages_system_first:
  "(systemMessage (providerOptions c) \<noteq> '''' \<longrightarrow>
      convertMessages c messages =
        \<lparr>ollamaMessage.Role = ''system'',
         ollamaMessage.Content = systemMessage (providerOptions c)\<rparr> #
        convertMessages (c\<lparr>providerOptions := (providerOptions c)\<lparr>systemMessage := ''''\<rparr>\<rparr>)
          messages) \<and>
   (systemMessage (providerOptions c) = '''' \<longrightarrow>
      convertMessages c messages = foldl convertMessage [] messages \<and>
      (\<forall>t \<in> set (convertMessages c messages). ollamaMessage.Role t \<noteq> ''system''))"
  by (auto simp: convertMessages_concat foldl_convertMessage dest: convertMessage_no_system)

theorem convertMessages_system_first_witness:
  "systemMessage (providerOptions (localClient ''be brief'')) \<noteq> [] \<and>
   convertMessages (localClient ''be brief'')
     [\<lparr>Message.Role = System, Message.Content = ''ignored'', ToolCalls = [], ToolResults = []\<rparr>,
      \<lparr>Message.Role = User, Message.Content = ''hi'', ToolCalls = [], ToolResults = []\<rparr>] =
     [\<lparr>ollamaMessage.Role = ''system'', ollamaMessage.Content = ''be brief''\<rparr>,
      \<lparr>ollamaMessage.Role = ''user'', ollamaMessage.Content = ''hi''\<rparr>] \<and>
   systemMessage (providerOptions (localClient [])) = [] \<and>
   convertMessages (localClient [])
     [\<lparr>Message.Role = System, Message.Content = ''ignored'', ToolCalls = [], ToolResults = []\<rparr>,
      \<lparr>Message.Role = User, Message.Content = ''hi'', ToolCalls = [], ToolResults = []\<rparr>] =
     [\<lparr>ollamaMessage.Role = ''user'', ollamaMessage.Content = ''hi''\<rparr>]"
proof -
  let ?history =
    "[\<lparr>Message.Role = System, Message.Content = ''ignored'', ToolCalls = [], ToolResults = []\<rparr>,
      \<lparr>Message.Role = User, Message.Content = ''hi'', ToolCalls = [], ToolResults = []\<rparr>]"
  have set: "systemMessage (providerOptions (localClient ''be brief'')) \<noteq> []"
    by (simp add: localClient_def)
  have unset: "systemMessage (providerOptions (localClient [])) = []"
    by (simp add: localClient_def)
  have rest: "convertMessages
      ((localClient ''be brief'')\<lparr>providerOptions :=
         (providerOptions (localClient ''be brief''))\<lparr>systemMessage := ''''\<rparr>\<rparr>) ?history =
      [\<lparr>ollamaMessage.Role = ''user'', ollamaMessage.Content = ''hi''\<rparr>]"
    by (simp add: convertMessages_def convertMessage_def localClient_def)
  have plain: "foldl convertMessage [] ?history =
      [\<lparr>ollamaMessage.Role = ''user'', ollamaMessage.Content = ''hi''\<rparr>]"
    by (simp add: convertMessage_def)
  from convertMessages_system_first [of "localClient ''be brief''" ?history] set rest
  have one: "convertMessages (localClient ''be brief'') ?history =
     [\<lparr>ollamaMessage.Role = ''system'', ollamaMessage.Content = ''be brief''\<rparr>,
      \<lparr>ollamaMessage.Role = ''user'', ollamaMessage.Content = ''hi''\<rparr>]"
    by (simp add: localClient_def)
  from convertMessages_system_first [of "localClient []" ?history] unset plain
  have two: "convertMessages (localClient []) ?history =
     [\<lparr>ollamaMessage.Role = ''user'', ollamaMessage.Content = ''hi''\<rparr>]"
    by simp
  from set one unset two show ?thesis by blast
qed

text \<open>
  C8. An assistant turn whose text content is empty and that carries at least one
  tool-call request adds exactly one wire turn: an assistant turn whose content is the
  heading followed by one entry per requested tool, with its name and its input. Inside
  a history, that single turn stands between the translation of the turns before it and
  the translation of the turns after it.
\<close>

theorem convertMessages_empty_assistant_tool_calls:
  assumes "Message.Role msg = Assistant"
    and "Message.Content msg = ''''"
    and "ToolCalls msg \<noteq> []"
  shows "convertMessage acc msg =
           acc @ [\<lparr>ollamaMessage.Role = ''assistant'',
                   ollamaMessage.Content =
                     ''I need to use the following tools:'' @ [newline] @
                     concat (map (\<lambda>call. ''- Tool: '' @ Name call @ [newline] @
                                          ''  Arguments: '' @ Input call @ [newline])
                               (ToolCalls msg))\<rparr>] \<and>
         convertMessages c (before @ msg # after) =
           convertMessages c before @
           [\<lparr>ollamaMessage.Role = ''assistant'',
             ollamaMessage.Content = toolCallsText (ToolCalls msg)\<rparr>] @
           foldl convertMessage [] after"
proof -
  have one: "convertMessage acc msg =
           acc @ [\<lparr>ollamaMessage.Role = ''assistant'',
                   ollamaMessage.Content =
                     ''I need to use the following tools:'' @ [newline] @
                     concat (map (\<lambda>call. ''- Tool: '' @ Name call @ [newline] @
                                          ''  Arguments: '' @ Input call @ [newline])
                               (ToolCalls msg))\<rparr>]" for acc
    using assms by (simp add: convertMessage_def toolCallsText_concat)
  have "convertMessages c (before @ msg # after) =
           convertMessages c before @
           [\<lparr>ollamaMessage.Role = ''assistant'',
             ollamaMessage.Content = toolCallsText (ToolCalls msg)\<rparr>] @
           foldl convertMessage [] after"
    by (simp add: convertMessages_concat foldl_convertMessage one [of "[]"] toolCallsText_concat)
  with one show ?thesis by blast
qed

theorem convertMessages_empty_assistant_tool_calls_witness:
  "Message.Role \<lparr>Message.Role = Assistant, Message.Content = [],
                 ToolCalls = [\<lparr>Name = ''ls'', Input = ''{}''\<rparr>, \<lparr>Name = ''view'', Input = ''{}''\<rparr>],
                 ToolResults = []\<rparr> = Assistant \<and>
   convertMessage []
     \<lparr>Message.Role = Assistant, Message.Content = [],
      ToolCalls = [\<lparr>Name = ''ls'', Input = ''{}''\<rparr>, \<lparr>Name = ''view'', Input = ''{}''\<rparr>],
      ToolResults = []\<rparr> =
     [\<lparr>ollamaMessage.Role = ''assistant'',
       ollamaMessage.Content =
         ''I need to use the following tools:'' @ [newline] @
         ''- Tool: ls'' @ [newline] @ ''  Arguments: {}'' @ [newline] @
         ''- Tool: view'' @ [newline] @ ''  Arguments: {}'' @ [newline]\<rparr>]"
proof -
  let ?msg = "\<lparr>Message.Role = Assistant, Message.Content = [],
      ToolCalls = [\<lparr>Name = ''ls'', Input = ''{}''\<rparr>, \<lparr>Name = ''view'', Input = ''{}''\<rparr>],
      ToolResults = []\<rparr>"
  have h1: "Message.Role ?msg = Assistant" by simp
  have h2: "Message.Content ?msg = ''''" by simp
  have h3: "ToolCalls ?msg \<noteq> []" by simp
  from convertMessages_empty_assistant_tool_calls [OF h1 h2 h3, of "[]" "localClient []" "[]" "[]"]
  show ?thesis by simp
qed

text \<open>
  C10. A history turn whose role is none of user, assistant and tool (a system turn
  among them) leaves the wire turns as they are, so the translation of a history is the
  translation of its user, assistant and tool turns; and the system turns of the
  translation are the one made from the configured system message when that is not
  empty, and none otherwise.
\<close>

theorem convertMessages_drops_other_roles:
  "(Message.Role msg \<notin> {User, Assistant, Tool} \<longrightarrow> convertMessage acc msg = acc) \<and>
   convertMessages c messages =
     convertMessages c (filter (\<lambda>m. Message.Role m \<in> {User, Assistant, Tool}) messages) \<and>
   filter (\<lambda>t. ollamaMessage.Role t = ''system'') (convertMessages c messages) =
     (if systemMessage (providerOptions c) \<noteq> ''''
      then [\<lparr>ollamaMessage.Role = ''system'',
             ollamaMessage.Content = systemMessage (providerOptions c)\<rparr>]
      else [])"
proof (intro conjI)
  show "Message.Role msg \<notin> {User, Assistant, Tool} \<longrightarrow> convertMessage acc msg = acc"
    by (simp add: convertMessage_unrecognized)
  have "concat (map (convertMessage []) messages) =
        concat (map (convertMessage [])
          (filter (\<lambda>m. Message.Role m \<in> {User, Assistant, Tool}) messages))"
    by (induction messages) (simp_all add: convertMessage_unrecognized)
  then show "convertMessages c messages =
     convertMessages c (filter (\<lambda>m. Message.Role m \<in> {User, Assistant, Tool}) messages)"
    by (simp add: convertMessages_concat)
  have "filter (\<lambda>t. ollamaMessage.Role t = ''system'')
          (concat (map (convertMessage []) messages)) = []"
    by (auto simp: filter_empty_conv dest: convertMessage_no_system)
  then show "filter (\<lambda>t. ollamaMessage.Role t = ''system'') (convertMessages c messages) =
     (if systemMessage (providerOptions c) \<noteq> ''''
      then [\<lparr>ollamaMessage.Role = ''system'',
             ollamaMessage.Content = systemMessage (providerOptions c)\<rparr>]
      else [])"
    by (simp add: convertMessages_concat)
qed

theorem convertMessages_drops_other_roles_witness:
  "Message.Role \<lparr>Message.Role = System, Message.Content = ''obey'', ToolCalls = [],
                 ToolResults = []\<rparr> \<notin> {User, Assistant, Tool} \<and>
   convertMessage [\<lparr>ollamaMessage.Role = ''user'', ollamaMessage.Content = ''hi''\<rparr>]
     \<lparr>Message.Role = System, Message.Content = ''obey'', ToolCalls = [], ToolResults = []\<rparr> =
     [\<lparr>ollamaMessage.Role = ''user'', ollamaMessage.Content = ''hi''\<rparr>] \<and>
   filter (\<lambda>t. ollamaMessage.Role t = ''system'')
     (convertMessages (localClient ''be brief'')
        [\<lparr>Message.Role = System, Message.Content = ''obey'', ToolCalls = [],
          ToolResults = []\<rparr>]) =
     [\<lparr>ollamaMessage.Role = ''system'', ollamaMessage.Content = ''be brief''\<rparr>]"
proof -
  let ?msg = "\<lparr>Message.Role = System, Message.Content = ''obey'', ToolCalls = [],
               ToolResults = []\<rparr>"
  let ?acc = "[\<lparr>ollamaMessage.Role = ''user'', ollamaMessage.Content = ''hi''\<rparr>]"
  have h: "Message.Role ?msg \<notin> {User, Assistant, Tool}" by simp
  have sys: "systemMessage (providerOptions (localClient ''be brief'')) = ''be brief''"
    by (simp add: localClient_def)
  note inst = convertMessages_drops_other_roles [of ?msg ?acc "localClient ''be brief''" "[?msg]"]
  from inst have "Message.Role ?msg \<notin> {User, Assistant, Tool} \<longrightarrow> convertMessage ?acc ?msg = ?acc"
    by (rule conjunct1)
  with h have dropped: "convertMessage ?acc ?msg = ?acc"
    by blast
  from inst have "filter (\<lambda>t. ollamaMessage.Role t = ''system'')
       (convertMessages (localClient ''be brief'') [?msg]) =
     (if systemMessage (providerOptions (localClient ''be brief'')) \<noteq> ''''
      then [\<lparr>ollamaMessage.Role = ''system'',
             ollamaMessage.Content = systemMessage (providerOptions (localClient ''be brief''))\<rparr>]
      else [])"
    by (rule conjunct2 [THEN conjunct2])
  then have only: "filter (\<lambda>t. ollamaMessage.Role t = ''system'')
       (convertMessages (localClient ''be brief'') [?msg]) =
     [\<lparr>ollamaMessage.Role = ''system'', ollamaMessage.Content = ''be brief''\<rparr>]"
    by (simp add: sys)
  from h dropped only show ?thesis by blast
qed

end
